theory Spec2Isabelle
  imports Main
begin

section \<open>Byte strings\<close>

text \<open>
  Go strings and byte slices are sequences of bytes; they are modelled as \<open>string\<close>
  (a list of 8-bit characters). The functions below are the few operations of the Go
  packages \<open>strings\<close> and \<open>bytes\<close> that \<open>main.go\<close> calls, under the names of the calls.
\<close>

fun HasPrefix :: "string \<Rightarrow> string \<Rightarrow> bool" where
  \<comment> \<open>\<open>strings.HasPrefix(s, prefix)\<close>\<close>
  "HasPrefix s [] = True"
| "HasPrefix [] (p # ps) = False"
| "HasPrefix (c # cs) (p # ps) = (c = p \<and> HasPrefix cs ps)"

definition HasSuffix :: "string \<Rightarrow> string \<Rightarrow> bool" where
  \<comment> \<open>\<open>strings.HasSuffix(s, suffix)\<close>\<close>
  "HasSuffix s suf = HasPrefix (rev s) (rev suf)"

fun Contains :: "string \<Rightarrow> string \<Rightarrow> bool" where
  \<comment> \<open>\<open>strings.Contains(s, substr)\<close>\<close>
  "Contains [] sub = (sub = [])"
| "Contains (c # cs) sub = (HasPrefix (c # cs) sub \<or> Contains cs sub)"

definition TrimPrefix :: "string \<Rightarrow> string \<Rightarrow> string" where
  \<comment> \<open>\<open>strings.TrimPrefix(s, prefix)\<close>\<close>
  "TrimPrefix s p = (if HasPrefix s p then drop (length p) s else s)"

definition TrimSuffix :: "string \<Rightarrow> string \<Rightarrow> string" where
  \<comment> \<open>\<open>strings.TrimSuffix(s, suffix)\<close>\<close>
  "TrimSuffix s suf = (if HasSuffix s suf then take (length s - length suf) s else s)"

fun IndexByte :: "string \<Rightarrow> char \<Rightarrow> nat option" where
  \<comment> \<open>\<open>bytes.IndexByte(b, c)\<close>; Go's \<open>-1\<close> is \<open>None\<close>\<close>
  "IndexByte [] c = None"
| "IndexByte (x # xs) c = (if x = c then Some 0 else map_option Suc (IndexByte xs c))"

fun ReplaceAll :: "string \<Rightarrow> string \<Rightarrow> string \<Rightarrow> string" where
  \<comment> \<open>\<open>strings.ReplaceAll(s, old, new)\<close> for a non-empty \<open>old\<close>: the leftmost occurrences,
      not overlapping, are replaced\<close>
  "ReplaceAll [] old new = []"
| "ReplaceAll (c # cs) old new =
     (if old \<noteq> [] \<and> HasPrefix (c # cs) old
      then new @ ReplaceAll (drop (length old) (c # cs)) old new
      else c # ReplaceAll cs old new)"

abbreviation LF :: char where "LF \<equiv> CHR 0x0A"
abbreviation CR :: char where "CR \<equiv> CHR 0x0D"

section \<open>The SSE frame reader (\<open>codeCompletions\<close>, lines 430-455 and 463)\<close>

definition split_func :: "string \<Rightarrow> bool \<Rightarrow> nat \<times> string option" where
  \<comment> \<open>the split function given to \<open>scanner.Split\<close> (lines 431-442): the number of bytes
      to advance and the token, \<open>None\<close> for Go's \<open>nil\<close> token\<close>
  "split_func data atEOF =
     (if atEOF \<and> length data = 0 then (0, None)
      else case IndexByte data LF of
             Some i \<Rightarrow> (i + 1, Some (take i data))
           | None \<Rightarrow> if atEOF then (length data, Some data) else (0, None))"

function scan_buffer :: "bool \<Rightarrow> string \<Rightarrow> string list \<times> string" where
  \<comment> \<open>the split function applied again and again to the unconsumed bytes, as the calls of
      \<open>bufio.Scanner.Scan\<close> do while it yields tokens: the tokens, and the bytes left when
      it asks for more input (or, at the end of the input, when it has no more tokens). The
      size of the scanner's buffer does not enter here: \<open>scanner_run\<close> applies it.\<close>
  "scan_buffer atEOF buf =
     (if buf = [] \<and> \<not> atEOF then ([], buf)
      else case split_func buf atEOF of
             (adv, None) \<Rightarrow> ([], buf)
           | (adv, Some tok) \<Rightarrow>
               (case scan_buffer atEOF (drop adv buf) of (toks, rest) \<Rightarrow> (tok # toks, rest)))"
  by pat_completeness auto
termination
  apply (relation "measure (\<lambda>(e, b). length b)")
   apply simp
  apply (auto simp: split_func_def split: if_splits option.splits)
  done

declare scan_buffer.simps [simp del]

definition MaxScanTokenSize :: nat where
  \<comment> \<open>\<open>bufio.MaxScanTokenSize = 64 * 1024\<close>: the size that the buffer of a scanner made by
      \<open>bufio.NewScanner\<close> (line 430) grows to and not beyond\<close>
  "MaxScanTokenSize = 65536"

definition maxConsecutiveEmptyReads :: nat where
  \<comment> \<open>\<open>bufio.maxConsecutiveEmptyReads\<close>\<close>
  "maxConsecutiveEmptyReads = 100"

fun scanner_run :: "nat \<Rightarrow> string \<Rightarrow> string list \<Rightarrow> string list" where
  \<comment> \<open>the tokens of \<open>for scanner.Scan()\<close> (line 446) when the upstream body delivers the
      given reads, in order, and then reports its end (or an error) by a read of its own.
      The arguments are the number of empty reads in a row so far, the bytes still
      buffered, and the reads to come. (A body may also report its end together with its
      last bytes. That makes a difference only for a stream whose last line has no line
      feed and exactly \<open>MaxScanTokenSize\<close> bytes, which is then returned as a token;
      this case is not modelled.)

      Each read is appended to the buffered bytes and the buffer is scanned. \<open>Scan\<close> takes
      the bytes of a read in pieces no longer than the room left in its buffer, and the
      buffer holds at most \<open>MaxScanTokenSize\<close> bytes: a line of that many bytes or more
      fills it before its line feed is seen, \<open>Scan\<close> fails with \<open>ErrTooLong\<close> and the loop
      of line 446 ends (\<open>scanner.Err\<close> is never looked at), so that line and all later
      bytes are dropped. Hence a token is returned only while it is shorter than
      \<open>MaxScanTokenSize\<close>, and the scan ends when that many bytes without a line feed are
      left in the buffer.

      A read of no bytes changes nothing, but after more than
      \<open>maxConsecutiveEmptyReads\<close> of them in a row \<open>Scan\<close> gives up with
      \<open>io.ErrNoProgress\<close>; like the end of the input, this makes it hand the buffered
      bytes to the split function with \<open>atEOF\<close> set.\<close>
  "scanner_run empties buf [] = fst (scan_buffer True buf)"
| "scanner_run empties buf (r # rs) =
     (if r = [] then
        (if maxConsecutiveEmptyReads \<le> empties then fst (scan_buffer True buf)
         else scanner_run (Suc empties) buf rs)
      else case scan_buffer False (buf @ r) of (toks, rest) \<Rightarrow>
        (let fit = takeWhile (\<lambda>tok. length tok < MaxScanTokenSize) toks
         in if fit \<noteq> toks then fit
            else if MaxScanTokenSize \<le> length rest then toks
            else toks @ scanner_run 0 rest rs))"

definition frame_payload :: "string \<Rightarrow> string option" where
  \<comment> \<open>the body of the reading goroutine's loop (lines 447-452): what is sent on
      \<open>dataChan\<close> for one token, \<open>None\<close> when the loop continues without sending\<close>
  "frame_payload data =
     (if length data < length ''data: '' then None
      else Some (TrimPrefix data ''data: ''))"


text \<open>
  The frame reader in the words of the specification, which puts no bound on the length of
  a line: the stream is cut at every line feed (a last line may lack one), lines shorter
  than \<open>data: \<close> are dropped, and the prefix \<open>data: \<close> and one trailing carriage return
  are removed from the others.
\<close>

fun spec_lines :: "string \<Rightarrow> string list" where
  "spec_lines [] = []"
| "spec_lines (c # cs) =
     (if c = LF then [] # spec_lines cs
      else case spec_lines cs of [] \<Rightarrow> [[c]] | l # ls \<Rightarrow> (c # l) # ls)"



section \<open>JSON documents and the \<open>gjson\<close> and \<open>sjson\<close> calls\<close>

text \<open>
  The handlers never decode a request body into a Go value: they read and write single
  paths of the raw JSON text with the libraries \<open>gjson\<close> and \<open>sjson\<close>. A body is modelled
  by the JSON document its bytes spell. An object keeps its members in the order of the
  text (\<open>gjson\<close> reads the first member with a given key, \<open>sjson\<close> replaces that member and
  appends a new one at the end). \<open>JNum\<close> carries the numbers that the text writes as an
  integer in decimal digits; numbers written with a fraction or an exponent, which the
  libraries read as floating-point values, are outside the model. The library
  functions below follow the libraries' documented behaviour on the paths \<open>main.go\<close>
  uses, which are plain keys and array indices separated by dots; a path is given as the
  list of its parts.
\<close>

datatype json =
    JNull
  | JBool bool
  | JNum int
  | JStr string
  | JArr "json list"
  | JObj "(string \<times> json) list"

abbreviation DQ :: char where "DQ \<equiv> CHR 0x22"
abbreviation BSL :: char where "BSL \<equiv> CHR 0x5C"

subsection \<open>Numbers as text\<close>

definition digit_char :: "nat \<Rightarrow> char" where
  "digit_char d = char_of (48 + d)"

function FormatUint :: "nat \<Rightarrow> string" where
  \<comment> \<open>the decimal digits of a natural number\<close>
  "FormatUint n =
     (if n < 10 then [digit_char n] else FormatUint (n div 10) @ [digit_char (n mod 10)])"
  by pat_completeness auto
termination
  by (relation "measure id") auto

declare FormatUint.simps [simp del]

definition Itoa :: "int \<Rightarrow> string" where
  \<comment> \<open>\<open>strconv.Itoa\<close>\<close>
  "Itoa i = (if i < 0 then CHR ''-'' # FormatUint (nat (- i)) else FormatUint (nat i))"

definition is_digit :: "char \<Rightarrow> bool" where
  "is_digit c = (48 \<le> (of_char c :: nat) \<and> (of_char c :: nat) \<le> 57)"

definition digits_value :: "string \<Rightarrow> nat" where
  "digits_value s = foldl (\<lambda>a c. 10 * a + ((of_char c :: nat) - 48)) 0 s"

definition atoui :: "string \<Rightarrow> nat option" where
  \<comment> \<open>\<open>sjson\<close>'s \<open>atoui\<close>: the value of a path part that consists of decimal digits only\<close>
  "atoui s = (if s \<noteq> [] \<and> list_all is_digit s then Some (digits_value s) else None)"

definition int64 :: "int \<Rightarrow> int" where
  \<comment> \<open>the \<open>int64\<close> that an operation of Go leaves when the exact result is \<open>i\<close>: the
      arithmetic of \<open>int64\<close> wraps around modulo \<open>2^64\<close>\<close>
  "int64 i = (i + 9223372036854775808) mod 18446744073709551616 - 9223372036854775808"

definition parseInt :: "string \<Rightarrow> int" where
  \<comment> \<open>\<open>gjson\<close>'s \<open>parseInt\<close>, with \<open>0\<close> where it reports failure: an optional minus sign and
      decimal digits, summed up by \<open>n = n*10 + int64(s[i]-'0')\<close> in an \<open>int64\<close> and, under
      a minus sign, multiplied by \<open>-1\<close> at the end\<close>
  "parseInt s =
     (let digits = foldl (\<lambda>n c. int64 (n * 10 + int (of_char c - 48))) 0
      in case s of
        [] \<Rightarrow> 0
      | c # cs \<Rightarrow>
          if c = CHR ''-''
          then (if cs \<noteq> [] \<and> list_all is_digit cs then int64 (digits cs * - 1) else 0)
          else if list_all is_digit s then digits s else 0)"

subsection \<open>JSON text\<close>

definition hex_char :: "nat \<Rightarrow> char" where
  "hex_char d = (''0123456789abcdef'' ! d)"

definition escape_byte :: "char \<Rightarrow> string" where
  \<comment> \<open>one byte of a string as \<open>encoding/json\<close> writes it with HTML escaping on (the
      default of \<open>json.Marshal\<close>): the quote and the backslash get a backslash; backspace,
      form feed, line feed, carriage return and tab their letter (Go 1.22 and later; before
      that, backspace and form feed were written as \<open>\u0008\<close> and \<open>\u000c\<close>); the other
      control characters and \<open><\<close>, \<open>>\<close>, \<open>&\<close> become \<open>\u00XX\<close>; every other byte is
      written as it is. That is what \<open>json.Marshal\<close> does with the bytes of well-formed
      UTF-8 other than the line and paragraph separators U+2028 and U+2029, which it
      writes as escapes of the form \<open>\u202X\<close>; bytes that are not well-formed UTF-8 it
      replaces by the escape of U+FFFD. Strings with such bytes are outside the model.\<close>
  "escape_byte c =
     (if c = DQ then [BSL, DQ]
      else if c = BSL then [BSL, BSL]
      else if c = CHR 0x08 then [BSL, CHR ''b'']
      else if c = CHR 0x0C then [BSL, CHR ''f'']
      else if c = LF then [BSL, CHR ''n'']
      else if c = CR then [BSL, CHR ''r'']
      else if c = CHR 0x09 then [BSL, CHR ''t'']
      else if (of_char c :: nat) < 32 \<or> c = CHR ''<'' \<or> c = CHR ''>'' \<or> c = CHR ''&''
      then [BSL, CHR ''u'', CHR ''0'', CHR ''0'',
            hex_char ((of_char c :: nat) div 16), hex_char ((of_char c :: nat) mod 16)]
      else [c])"

definition quote :: "string \<Rightarrow> string" where
  \<comment> \<open>a Go string as a JSON string literal\<close>
  "quote s = [DQ] @ concat (map escape_byte s) @ [DQ]"

fun join :: "string \<Rightarrow> string list \<Rightarrow> string" where
  \<comment> \<open>the texts with the separator between them\<close>
  "join sep [] = []"
| "join sep [x] = x"
| "join sep (x # y # ys) = x @ sep @ join sep (y # ys)"

definition member :: "string \<Rightarrow> string \<Rightarrow> string" where
  \<comment> \<open>an object member: the quoted key, a colon, the text of the value\<close>
  "member k text = quote k @ '':'' @ text"

fun json_text :: "json \<Rightarrow> string" where
  \<comment> \<open>the compact text of a document, as \<open>json.Marshal\<close> writes a value (a Go map is given
      by its members in the order of their keys, in which \<open>json.Marshal\<close> writes them). It
      also stands for the bytes of a body; the text a client sent for the parts that the
      handlers leave alone may differ from it in spacing and in the choice of escapes.\<close>
  "json_text JNull = ''null''"
| "json_text (JBool b) = (if b then ''true'' else ''false'')"
| "json_text (JNum n) = Itoa n"
| "json_text (JStr s) = quote s"
| "json_text (JArr xs) = ''['' @ join '','' (map json_text xs) @ '']''"
| "json_text (JObj ms) =
     ''{'' @ join '','' (map (\<lambda>(k, v). member k (json_text v)) ms) @ ''}''"

subsection \<open>\<open>gjson\<close>: reading a path\<close>

definition gjson_Get :: "json \<Rightarrow> string \<Rightarrow> json option" where
  \<comment> \<open>\<open>gjson.GetBytes(body, key)\<close> and \<open>Result.Get(key)\<close> for a path of one part: the
      first member with that key of an object, the element with that index of an array;
      \<open>None\<close> is the result that does not exist\<close>
  "gjson_Get doc k =
     (case doc of
        JObj ms \<Rightarrow> map_of ms k
      | JArr xs \<Rightarrow>
          (case atoui k of
             Some i \<Rightarrow> if i < length xs then Some (xs ! i) else None
           | None \<Rightarrow> None)
      | _ \<Rightarrow> None)"

definition Result_Exists :: "json option \<Rightarrow> bool" where
  \<comment> \<open>\<open>Result.Exists()\<close>\<close>
  "Result_Exists r = (r \<noteq> None)"

definition Result_String :: "json option \<Rightarrow> string" where
  \<comment> \<open>\<open>Result.String()\<close>: the text of a string, the literal of a number or a boolean, the
      raw text of an array or an object, and the empty string for \<open>null\<close> and for a
      result that does not exist\<close>
  "Result_String r =
     (case r of
        None \<Rightarrow> []
      | Some JNull \<Rightarrow> []
      | Some (JStr s) \<Rightarrow> s
      | Some v \<Rightarrow> json_text v)"

definition Result_Int :: "json option \<Rightarrow> int" where
  \<comment> \<open>\<open>Result.Int()\<close>, an \<open>int64\<close>: \<open>1\<close> for \<open>true\<close>, the integer a string spells, \<open>0\<close> for
      a value of another kind or none; for a number, the number itself when its magnitude
      is at most \<open>2^53 - 1\<close> (\<open>safeInt\<close>), and otherwise what \<open>parseInt\<close> makes of its
      text, which is an integer in decimal digits\<close>
  "Result_Int r =
     (case r of
        Some (JNum n) \<Rightarrow>
          if - 9007199254740991 \<le> n \<and> n \<le> 9007199254740991 then n
          else parseInt (json_text (JNum n))
      | Some (JBool b) \<Rightarrow> (if b then 1 else 0)
      | Some (JStr s) \<Rightarrow> parseInt s
      | _ \<Rightarrow> 0)"

definition Result_Array :: "json option \<Rightarrow> json list" where
  \<comment> \<open>\<open>Result.Array()\<close>: the elements of an array, no element for \<open>null\<close> and for a
      result that does not exist, and the value itself as the only element otherwise\<close>
  "Result_Array r =
     (case r of
        None \<Rightarrow> []
      | Some JNull \<Rightarrow> []
      | Some (JArr xs) \<Rightarrow> xs
      | Some v \<Rightarrow> [v])"

subsection \<open>\<open>sjson\<close>: writing a path\<close>

fun obj_set :: "(string \<times> json) list \<Rightarrow> string \<Rightarrow> json \<Rightarrow> (string \<times> json) list" where
  \<comment> \<open>the first member with the key gets the value; a new member goes to the end\<close>
  "obj_set [] k v = [(k, v)]"
| "obj_set ((k', v') # ms) k v =
     (if k' = k then (k, v) # ms else (k', v') # obj_set ms k v)"

fun obj_delete :: "(string \<times> json) list \<Rightarrow> string \<Rightarrow> (string \<times> json) list" where
  \<comment> \<open>the first member with the key is removed\<close>
  "obj_delete [] k = []"
| "obj_delete ((k', v') # ms) k = (if k' = k then ms else (k', v') # obj_delete ms k)"

fun build_path :: "string list \<Rightarrow> json \<Rightarrow> json" where
  \<comment> \<open>\<open>sjson\<close>'s \<open>appendBuild\<close>: the value placed where the rest of a path does not exist
      yet: an array padded with \<open>null\<close> for a numeric part (and for the append part
      \<open>-1\<close>), an object with one member otherwise\<close>
  "build_path [] v = v"
| "build_path (k # ks) v =
     (case atoui k of
        Some i \<Rightarrow> JArr (replicate i JNull @ [build_path ks v])
      | None \<Rightarrow>
          if k = ''-1'' then JArr [build_path ks v] else JObj [(k, build_path ks v)])"

fun set_path :: "string list \<Rightarrow> json \<Rightarrow> json \<Rightarrow> json option" where
  \<comment> \<open>\<open>sjson\<close>'s \<open>appendRawPaths\<close>: the document with the value at the path, \<open>None\<close> when
      \<open>sjson\<close> reports an error (a part that is not a number where the document has an
      array). A part that exists is followed or, when it is the last, replaced; a part
      that does not exist is added to an object, or to an array after padding with
      \<open>null\<close>; anything that is neither an object nor an array is replaced by a new
      container.\<close>
  "set_path [] v doc = Some v"
| "set_path (k # ks) v doc =
     (case doc of
        JObj ms \<Rightarrow>
          (case map_of ms k of
             Some old \<Rightarrow> map_option (\<lambda>new. JObj (obj_set ms k new)) (set_path ks v old)
           | None \<Rightarrow> Some (JObj (ms @ [(k, build_path ks v)])))
      | JArr xs \<Rightarrow>
          (case atoui k of
             Some i \<Rightarrow>
               if i < length xs
               then map_option (\<lambda>new. JArr (xs[i := new])) (set_path ks v (xs ! i))
               else Some (JArr (xs @ replicate (i - length xs) JNull @ [build_path ks v]))
           | None \<Rightarrow>
               if k = ''-1'' then Some (JArr (xs @ [build_path ks v])) else None)
      | _ \<Rightarrow> Some (build_path (k # ks) v))"

definition sjson_Set :: "json \<Rightarrow> string list \<Rightarrow> json \<Rightarrow> json" where
  \<comment> \<open>\<open>body, _ = sjson.SetBytes(body, path, value)\<close>: on an error \<open>sjson\<close> returns the
      document it was given, and the handlers drop the error\<close>
  "sjson_Set doc path v = (case set_path path v doc of Some doc' \<Rightarrow> doc' | None \<Rightarrow> doc)"

definition sjson_Delete :: "json \<Rightarrow> string \<Rightarrow> json" where
  \<comment> \<open>\<open>body, _ = sjson.DeleteBytes(body, key)\<close> for a path of one part: a member that is
      absent leaves the document as it is\<close>
  "sjson_Delete doc k = (case doc of JObj ms \<Rightarrow> JObj (obj_delete ms k) | _ \<Rightarrow> doc)"

definition plain_key :: "string \<Rightarrow> bool" where
  \<comment> \<open>a path part that names an object member: neither an array index nor the append
      part \<open>-1\<close>\<close>
  "plain_key k = (atoui k = None \<and> k \<noteq> ''-1'')"

section \<open>Configuration and errors\<close>

record config =
  \<comment> \<open>the fields of \<open>config\<close> that the request and response translation reads\<close>
  CodeInstructModel :: string
  ChatApiBase :: string
  ChatMaxTokens :: int
  ChatModelDefault :: string
  ChatModelMap :: "string \<rightharpoonup> string"
  ChatLocale :: string

datatype error =
    IndexOutOfRange int nat
    \<comment> \<open>Go's run-time panic \<open>index out of range [i] with length n\<close>\<close>
  | InvalidWriteHeaderCode int
    \<comment> \<open>the panic \<open>invalid WriteHeader code\<close> of \<open>net/http\<close>\<close>

definition index_at :: "'a list \<Rightarrow> int \<Rightarrow> error + 'a" where
  \<comment> \<open>\<open>xs[i]\<close> on a Go slice, with its bounds check\<close>
  "index_at xs i =
     (if 0 \<le> i \<and> i < int (length xs) then Inr (xs ! nat i)
      else Inl (IndexOutOfRange i (length xs)))"

section \<open>The chat request (\<open>completions\<close>, lines 293-319)\<close>

definition locale_marker :: string where
  "locale_marker = ''Respond in the following locale''"

definition rewrite_model :: "config \<Rightarrow> json \<Rightarrow> json" where
  \<comment> \<open>lines 293-299\<close>
  "rewrite_model cfg body =
     (let model = Result_String (gjson_Get body ''model'');
          model' = (case ChatModelMap cfg model of
                      Some mapped \<Rightarrow> mapped
                    | None \<Rightarrow> ChatModelDefault cfg)
      in sjson_Set body [''model''] (JStr model'))"

definition locale_text :: "config \<Rightarrow> string" where
  \<comment> \<open>lines 305-309: what is added to the content\<close>
  "locale_text cfg =
     (let locale = (if ChatLocale cfg = [] then ''zh_CN'' else ChatLocale cfg)
      in ''Respond in the following locale: '' @ locale @ ''.'')"

definition add_locale :: "config \<Rightarrow> json \<Rightarrow> error + json" where
  \<comment> \<open>lines 301-311; \<open>messages[lastIndex]\<close> panics when there is no message\<close>
  "add_locale cfg body =
     (if \<not> Result_Exists (gjson_Get body ''function_call'') then
        (let messages = Result_Array (gjson_Get body ''messages'');
             lastIndex = int (length messages) - 1
         in case index_at messages lastIndex of
              Inl e \<Rightarrow> Inl e
            | Inr lastMessage \<Rightarrow>
                (let content = Result_String (gjson_Get lastMessage ''content'')
                 in if \<not> Contains content locale_marker
                    then Inr (sjson_Set body [''messages'', Itoa lastIndex, ''content'']
                                (JStr (content @ locale_text cfg)))
                    else Inr body))
      else Inr body)"

definition strip_intent :: "json \<Rightarrow> json" where
  \<comment> \<open>lines 313-315\<close>
  "strip_intent body =
     sjson_Delete (sjson_Delete (sjson_Delete body ''intent'') ''intent_threshold'')
       ''intent_content''"

definition clamp_max_tokens :: "config \<Rightarrow> json \<Rightarrow> json" where
  \<comment> \<open>lines 317-319\<close>
  "clamp_max_tokens cfg body =
     (if Result_Int (gjson_Get body ''max_tokens'') > ChatMaxTokens cfg
      then sjson_Set body [''max_tokens''] (JNum (ChatMaxTokens cfg))
      else body)"

definition completions_body :: "config \<Rightarrow> json \<Rightarrow> error + json" where
  \<comment> \<open>the body that \<open>completions\<close> sends upstream (line 322), or the panic that ends the
      handler before anything is sent\<close>
  "completions_body cfg body =
     (case add_locale cfg (rewrite_model cfg body) of
        Inl e \<Rightarrow> Inl e
      | Inr body' \<Rightarrow> Inr (clamp_max_tokens cfg (strip_intent body')))"

definition augment_content :: "config \<Rightarrow> string \<Rightarrow> string" where
  \<comment> \<open>lines 304-310 as a function of the content of the last message: the content that
      the message has afterwards\<close>
  "augment_content cfg content =
     (if \<not> Contains content locale_marker then content @ locale_text cfg else content)"

definition last_content :: "json \<Rightarrow> string" where
  \<comment> \<open>the content of the last message of a body, as line 304 reads it\<close>
  "last_content body =
     (case rev (Result_Array (gjson_Get body ''messages'')) of
        [] \<Rightarrow> []
      | m # ms \<Rightarrow> Result_String (gjson_Get m ''content''))"

section \<open>The code-completion request (\<open>ConstructRequestBody\<close>, lines 516-572)\<close>

definition StableCodeModelPrefix :: string where
  "StableCodeModelPrefix = ''stable-code''"

definition constructWithChatModel :: "json \<Rightarrow> json \<Rightarrow> string" where
  \<comment> \<open>lines 562-572: \<open>sjson\<close> writes the messages as \<open>json.Marshal\<close> renders them, and the
      two replacements run over the text of the whole body\<close>
  "constructWithChatModel body messages =
     (let body' = sjson_Set body [''messages''] messages;
          jsonStr = json_text body';
          jsonStr = ReplaceAll jsonStr (BSL # ''u003c'') ''<'';
          jsonStr = ReplaceAll jsonStr (BSL # ''u003e'') ''>''
      in jsonStr)"

definition user_message :: "string \<Rightarrow> json" where
  \<comment> \<open>\<open>[]map[string]string{{"role": "user", "content": content}}\<close>\<close>
  "user_message content = JArr [JObj [(''content'', JStr content), (''role'', JStr ''user'')]]"

definition constructWithStableCodeModel :: "json \<Rightarrow> string" where
  \<comment> \<open>lines 547-560; \<open>%s\<close> prints a \<open>gjson.Result\<close> through its \<open>String\<close> method\<close>
  "constructWithStableCodeModel body =
     (let suffix = gjson_Get body ''suffix'';
          prompt = gjson_Get body ''prompt'';
          content = ''<fim_prefix>'' @ Result_String prompt @ ''<fim_suffix>'' @
                    Result_String suffix @ ''<fim_middle>''
      in constructWithChatModel body (user_message content))"

definition fim_begin :: string where
  \<comment> \<open>the bytes of the token that opens the prompt of line 535 (UTF-8)\<close>
  "fim_begin = ''<'' @ [CHR 0xEF, CHR 0xBD, CHR 0x9C] @ ''fim'' @ [CHR 0xE2, CHR 0x96, CHR 0x81] @
               ''begin'' @ [CHR 0xEF, CHR 0xBD, CHR 0x9C] @ ''>''"

definition fim_hole :: string where
  "fim_hole = ''<'' @ [CHR 0xEF, CHR 0xBD, CHR 0x9C] @ ''fim'' @ [CHR 0xE2, CHR 0x96, CHR 0x81] @
              ''hole'' @ [CHR 0xEF, CHR 0xBD, CHR 0x9C] @ ''>''"

definition fim_end :: string where
  "fim_end = ''<'' @ [CHR 0xEF, CHR 0xBD, CHR 0x9C] @ ''fim'' @ [CHR 0xE2, CHR 0x96, CHR 0x81] @
             ''end'' @ [CHR 0xEF, CHR 0xBD, CHR 0x9C] @ ''>''"

definition constructWithCfCodeModel :: "json \<Rightarrow> string" where
  \<comment> \<open>lines 532-545\<close>
  "constructWithCfCodeModel body =
     (let suffix = gjson_Get body ''suffix'';
          prompt = gjson_Get body ''prompt'';
          content = fim_begin @ Result_String prompt @ fim_hole @ Result_String suffix @ fim_end
      in constructWithChatModel body (user_message content))"

definition ConstructRequestBody :: "json \<Rightarrow> config \<Rightarrow> string" where
  \<comment> \<open>lines 516-530; the \<open>if\<close> of line 525 has an empty body\<close>
  "ConstructRequestBody body cfg =
     (let body = sjson_Delete body ''extra'';
          body = sjson_Delete body ''nwo'';
          body = sjson_Set body [''model''] (JStr (CodeInstructModel cfg))
      in if Contains (CodeInstructModel cfg) StableCodeModelPrefix
         then constructWithStableCodeModel body
         else if HasPrefix (CodeInstructModel cfg) ''@''
         then constructWithCfCodeModel body
         else json_text body)"

section \<open>Stream chunks and their JSON form (lines 49-66)\<close>

record Message =
  Role :: string
  Content :: json  \<comment> \<open>Go's \<open>any\<close>: \<open>JNull\<close> is the nil interface\<close>
  Name :: "string option"

record ChatCompletionsStreamResponseChoice =
  Index :: int
  Delta :: Message
  FinishReason :: "string option"

record ChatCompletionsStreamResponse =
  Id' :: string
  Object :: string
  Created :: int
  Model :: string
  Choices :: "ChatCompletionsStreamResponseChoice list"

definition Marshal_Message :: "Message \<Rightarrow> string" where
  \<comment> \<open>every field is tagged \<open>omitempty\<close>\<close>
  "Marshal_Message m =
     ''{'' @ join '',''
       ((if Role m = [] then [] else [member ''role'' (quote (Role m))]) @
        (if Content m = JNull then [] else [member ''content'' (json_text (Content m))]) @
        (case Name m of None \<Rightarrow> [] | Some n \<Rightarrow> [member ''name'' (quote n)])) @ ''}''"

definition Marshal_Choice :: "ChatCompletionsStreamResponseChoice \<Rightarrow> string" where
  "Marshal_Choice c =
     ''{'' @ join '',''
       ([member ''index'' (Itoa (Index c)), member ''delta'' (Marshal_Message (Delta c))] @
        (case FinishReason c of None \<Rightarrow> [] | Some f \<Rightarrow> [member ''finish_reason'' (quote f)])) @
     ''}''"

definition Marshal_Response :: "ChatCompletionsStreamResponse \<Rightarrow> string" where
  \<comment> \<open>the text \<open>json.Marshal\<close> gives a chunk with at least one choice (the handler
      marshals no other)\<close>
  "Marshal_Response r =
     ''{'' @ join '',''
       [member ''id'' (quote (Id' r)), member ''object'' (quote (Object r)),
        member ''created'' (Itoa (Created r)), member ''model'' (quote (Model r)),
        member ''choices'' (''['' @ join '','' (map Marshal_Choice (Choices r)) @ '']'')] @ ''}''"

definition json_Marshal :: "ChatCompletionsStreamResponse \<Rightarrow> string + string" where
  \<comment> \<open>\<open>json.Marshal\<close> with its error on the left; it has no error for a chunk, whose
      fields are strings, integers and values that \<open>json.Unmarshal\<close> produced\<close>
  "json_Marshal r = Inr (Marshal_Response r)"

section \<open>The response writer\<close>

record gin_context =
  status :: int  \<comment> \<open>the status that \<open>gin\<close>'s writer holds for the response; it starts with 200\<close>
  header :: "string \<rightharpoonup> string"
  written :: "string list"  \<comment> \<open>the body: what each \<open>Render\<close> or \<open>String\<close> call wrote\<close>
  logged :: "string list list"  \<comment> \<open>the operands of each \<open>log.Println\<close>\<close>
  aborted :: bool

definition new_context :: gin_context where
  "new_context = \<lparr>status = 200, header = Map.empty, written = [], logged = [], aborted = False\<rparr>"

definition log_Println :: "string list \<Rightarrow> gin_context \<Rightarrow> gin_context" where
  "log_Println operands c = c\<lparr>logged := logged c @ [operands]\<rparr>"

definition c_Header :: "string \<Rightarrow> string \<Rightarrow> gin_context \<Rightarrow> gin_context" where
  \<comment> \<open>\<open>c.Header(key, value)\<close> and \<open>c.Writer.Header().Set(key, value)\<close>, value not empty\<close>
  "c_Header k v c = c\<lparr>header := (header c)(k \<mapsto> v)\<rparr>"

definition c_Status :: "int \<Rightarrow> gin_context \<Rightarrow> gin_context" where
  \<comment> \<open>\<open>c.Status(code)\<close>: \<open>gin\<close> ignores a code that is not positive\<close>
  "c_Status code c = (if 0 < code then c\<lparr>status := code\<rparr> else c)"

definition bodyAllowedForStatus :: "int \<Rightarrow> bool" where
  \<comment> \<open>\<open>gin\<close>'s \<open>bodyAllowedForStatus\<close>: HTTP gives no body to the informational statuses,
      to 204 and to 304\<close>
  "bodyAllowedForStatus code = (\<not> (100 \<le> code \<and> code \<le> 199) \<and> code \<noteq> 204 \<and> code \<noteq> 304)"

definition WriteHeaderNow :: "gin_context \<Rightarrow> error + gin_context" where
  \<comment> \<open>\<open>c.Writer.WriteHeaderNow()\<close> on a response of which nothing is written yet: \<open>gin\<close>
      hands its status to \<open>WriteHeader\<close> of \<open>net/http\<close>, whose \<open>checkWriteHeaderCode\<close>
      panics on a code below 100 or above 999\<close>
  "WriteHeaderNow c =
     (if status c < 100 \<or> 999 < status c then Inl (InvalidWriteHeaderCode (status c))
      else Inr c)"

definition c_String :: "int \<Rightarrow> string \<Rightarrow> gin_context \<Rightarrow> error + gin_context" where
  \<comment> \<open>\<open>c.String(code, text)\<close> on a response of which nothing is written yet: \<open>gin\<close>'s
      \<open>Render\<close> sets the status, the string renderer sets the content type \<open>text/plain\<close>
      unless the header has one, the header is written, and the text is written when the
      status allows a body\<close>
  "c_String code s c =
     (let c = c_Status code c;
          c = (if header c ''Content-Type'' = None
               then c_Header ''Content-Type'' ''text/plain; charset=utf-8'' c else c)
      in case WriteHeaderNow c of
           Inl e \<Rightarrow> Inl e
         | Inr c \<Rightarrow> Inr (if bodyAllowedForStatus code then c\<lparr>written := written c @ [s]\<rparr> else c))"

definition c_Abort :: "gin_context \<Rightarrow> gin_context" where
  "c_Abort c = c\<lparr>aborted := True\<rparr>"

definition abortCodex :: "gin_context \<Rightarrow> int \<Rightarrow> error + gin_context" where
  \<comment> \<open>lines 227-232\<close>
  "abortCodex c code =
     (case c_String code (''data: [DONE]'' @ [LF])
             (c_Header ''Content-Type'' ''text/event-stream'' c) of
        Inl e \<Rightarrow> Inl e
      | Inr c \<Rightarrow> Inr (c_Abort c))"

definition SetEventStreamHeaders :: "gin_context \<Rightarrow> gin_context" where
  \<comment> \<open>lines 127-133\<close>
  "SetEventStreamHeaders c =
     c_Header ''X-Accel-Buffering'' ''no''
       (c_Header ''Transfer-Encoding'' ''chunked''
         (c_Header ''Connection'' ''keep-alive''
           (c_Header ''Cache-Control'' ''no-cache''
             (c_Header ''Content-Type'' ''text/event-stream'' c))))"

definition GetResponseID :: "string \<Rightarrow> string" where
  \<comment> \<open>lines 139-142, from the request id that the context holds under \<open>RequestIdKey\<close>\<close>
  "GetResponseID logID = ''chatcmpl-'' @ logID"

definition dataReplacer :: "string \<Rightarrow> string" where
  \<comment> \<open>lines 82-84: a line feed becomes a line feed and \<open>data:\<close>, a carriage return
      becomes a backslash and \<open>r\<close>\<close>
  "dataReplacer s =
     concat (map (\<lambda>ch. if ch = LF then LF # ''data:''
                        else if ch = CR then [BSL, CHR ''r''] else [ch]) s)"

definition writeData :: "string \<Rightarrow> string" where
  \<comment> \<open>lines 102-108: the bytes written for an event\<close>
  "writeData d = dataReplacer d @ (if HasPrefix d ''data'' then [LF, LF] else [])"

definition WriteContentType :: "gin_context \<Rightarrow> gin_context" where
  \<comment> \<open>lines 114-121\<close>
  "WriteContentType c =
     (let c = c_Header ''Content-Type'' ''text/event-stream'' c
      in if header c ''Cache-Control'' = None then c_Header ''Cache-Control'' ''no-cache'' c
         else c)"

definition Render :: "string \<Rightarrow> gin_context \<Rightarrow> gin_context" where
  \<comment> \<open>\<open>c.Render(-1, CustomEvent{Data: d})\<close>: the status stays, then lines 109-112\<close>
  "Render d c = (let c = WriteContentType c in c\<lparr>written := written c @ [writeData d]\<rparr>)"

section \<open>The stream translator (\<open>codeCompletions\<close>, lines 443-512)\<close>

datatype event = Data string | Stop
  \<comment> \<open>what the \<open>select\<close> of line 460 receives: a value of \<open>dataChan\<close>, or the signal of
      \<open>stopChan\<close>\<close>

definition reader_events :: "string list \<Rightarrow> event list" where
  \<comment> \<open>the goroutine of lines 445-455: it sends a payload for each token that is long
      enough and then the stop signal; both channels are unbuffered, so the translator
      receives the events in this order\<close>
  "reader_events reads =
     map Data (List.map_filter frame_payload (scanner_run 0 [] reads)) @ [Stop]"

definition end_of_sentence :: string where
  \<comment> \<open>the bytes of the token of line 477 (UTF-8)\<close>
  "end_of_sentence =
     ''<'' @ [CHR 0xEF, CHR 0xBD, CHR 0x9C] @ ''end'' @ [CHR 0xE2, CHR 0x96, CHR 0x81] @ ''of'' @
     [CHR 0xE2, CHR 0x96, CHR 0x81] @ ''sentence'' @ [CHR 0xEF, CHR 0xBD, CHR 0x9C] @ ''>''"

definition blank_end_of_sentence ::
  "ChatCompletionsStreamResponse \<Rightarrow> error + ChatCompletionsStreamResponse" where
  \<comment> \<open>lines 477-479; \<open>Choices[0]\<close> panics on a chunk without choices\<close>
  "blank_end_of_sentence r =
     (case Choices r of
        [] \<Rightarrow> Inl (IndexOutOfRange 0 0)
      | c # cs \<Rightarrow>
          if Content (Delta c) = JStr end_of_sentence
          then Inr (r\<lparr>Choices := c\<lparr>Delta := (Delta c)\<lparr>Content := JStr []\<rparr>\<rparr> # cs\<rparr>)
          else Inr r)"

definition finish_chunk :: "config \<Rightarrow> int \<Rightarrow> string \<Rightarrow> ChatCompletionsStreamResponse" where
  \<comment> \<open>lines 491-502: \<open>endResponse\<close>\<close>
  "finish_chunk cfg now rid =
     \<lparr>Id' = rid, Object = ''chat.completion.chunk'', Created = now,
      Model = CodeInstructModel cfg,
      Choices = [\<lparr>Index = 0, Delta = \<lparr>Role = [], Content = JNull, Name = None\<rparr>,
                  FinishReason = Some ''stop''\<rparr>]\<rparr>"

definition stream_step ::
  "config \<Rightarrow> (string \<Rightarrow> string + ChatCompletionsStreamResponse) \<Rightarrow> int \<Rightarrow> string \<Rightarrow>
   event \<Rightarrow> gin_context \<Rightarrow> error + bool \<times> gin_context" where
  \<comment> \<open>the function given to \<open>c.Stream\<close> (lines 459-512): the context after the step, and
      whether the stream stays open. \<open>unmarshal\<close> is \<open>json.Unmarshal\<close> into a chunk, with
      the text of its error on the left; \<open>now\<close> is the clock of \<open>GetTimestamp\<close>.\<close>
  "stream_step cfg unmarshal now rid ev c =
     (case ev of
        Data d \<Rightarrow>
          (let d = TrimSuffix d [CR]
           in case unmarshal d of
                Inl err \<Rightarrow>
                  if d = ''[DONE]'' then Inr (True, c)
                  else Inr (True, log_Println [''error unmarshalling stream response: '', err] c)
              | Inr codeResponse \<Rightarrow>
                  if HasPrefix (CodeInstructModel cfg) ''@'' then
                    (case blank_end_of_sentence codeResponse of
                       Inl e \<Rightarrow> Inl e
                     | Inr codeResponse \<Rightarrow>
                         (case json_Marshal codeResponse of
                            Inl err \<Rightarrow>
                              Inr (True,
                                log_Println [''error marshalling stream response: '', err] c)
                          | Inr jsonStr \<Rightarrow> Inr (True, Render (''data: '' @ jsonStr) c)))
                  else Inr (True, Render (''data:'' @ d) c))
      | Stop \<Rightarrow>
          (case json_Marshal (finish_chunk cfg now rid) of
             Inl err \<Rightarrow>
               Inr (True, log_Println [''error marshalling stream response: '', err] c)
           | Inr jsonStr \<Rightarrow>
               Inr (False, Render ''data: [DONE]'' (Render (''data: '' @ jsonStr) c))))"

fun Stream ::
  "(event \<Rightarrow> gin_context \<Rightarrow> error + bool \<times> gin_context) \<Rightarrow> event list \<Rightarrow> gin_context \<Rightarrow>
   error + gin_context" where
  \<comment> \<open>\<open>c.Stream(step)\<close> with the client connected: the step runs on each event until it
      answers \<open>false\<close>; a panic of the step ends the handler. When no event is left the
      step waits in its \<open>select\<close> and nothing more is written.\<close>
  "Stream step [] c = Inr c"
| "Stream step (e # es) c =
     (case step e c of
        Inl err \<Rightarrow> Inl err
      | Inr (keepOpen, c') \<Rightarrow> if keepOpen then Stream step es c' else Inr c')"

definition stream_start :: "int \<Rightarrow> string \<Rightarrow> gin_context \<Rightarrow> gin_context" where
  \<comment> \<open>lines 422-427 and 456: the status and the headers before the stream starts\<close>
  "stream_start code contentType c =
     (let c = c_Status code c;
          c = (if contentType \<noteq> [] then c_Header ''Content-Type'' contentType c else c)
      in SetEventStreamHeaders c)"

datatype upstream =
    NewRequestFailed  \<comment> \<open>\<open>http.NewRequestWithContext\<close> has an error (line 386)\<close>
  | DoCanceled  \<comment> \<open>\<open>client.Do\<close> fails with \<open>context.Canceled\<close> (line 403)\<close>
  | DoFailed string  \<comment> \<open>\<open>client.Do\<close> fails with another error, of this text (line 408)\<close>
  | Responded int string "string list"
    \<comment> \<open>a response: its status, its content type (empty when it has none), and the reads
        that deliver its body\<close>

definition codeCompletions ::
  "config \<Rightarrow> (string \<Rightarrow> string + ChatCompletionsStreamResponse) \<Rightarrow> int \<Rightarrow> string \<Rightarrow>
   bool \<Rightarrow> json option \<Rightarrow> (string \<Rightarrow> upstream) \<Rightarrow> error + gin_context" where
  \<comment> \<open>lines 367-514. \<open>canceled\<close>: the request context has an error after the delay of line
      370; \<open>body\<close>: the request body, \<open>None\<close> when reading it fails; \<open>send\<close>: what the upstream
      does with the body it is sent.\<close>
  "codeCompletions cfg unmarshal now logID canceled body send =
     (let c = new_context
      in if canceled then abortCodex c 408
         else case body of
                None \<Rightarrow> abortCodex c 400
              | Some body \<Rightarrow>
                  (case send (ConstructRequestBody body cfg) of
                     NewRequestFailed \<Rightarrow> abortCodex c 500
                   | DoCanceled \<Rightarrow> abortCodex c 408
                   | DoFailed err \<Rightarrow>
                       abortCodex (log_Println [''request completions failed:'', err] c) 500
                   | Responded code contentType reads \<Rightarrow>
                       if code \<noteq> 200
                       then abortCodex
                              (log_Println [''request completions failed:'', concat reads] c)
                              code
                       else
                         (let c = stream_start code contentType c;
                              rid = GetResponseID logID
                          in Stream (stream_step cfg unmarshal now rid) (reader_events reads) c)))"

section \<open>Example inputs\<close>

definition example_config :: config where
  "example_config =
     \<lparr>CodeInstructModel = ''stable-code-3b'', ChatApiBase = ''https://api.example.com/v1'',
      ChatMaxTokens = 4096, ChatModelDefault = ''gpt-4o'',
      ChatModelMap = [''gpt-4'' \<mapsto> ''gpt-4-turbo''], ChatLocale = []\<rparr>"

definition example_message :: "string \<Rightarrow> json" where
  "example_message content = JObj [(''role'', JStr ''user''), (''content'', JStr content)]"

definition example_chat_body :: json where
  \<comment> \<open>a body with the members \<open>model\<close>, \<open>intent\<close>, \<open>max_tokens\<close> and \<open>messages\<close>, the last
      with one user message\<close>
  "example_chat_body =
     JObj [(''model'', JStr ''gpt-4''), (''intent'', JBool True), (''max_tokens'', JNum 8192),
           (''messages'', JArr [example_message ''hi''])]"

definition example_marked_body :: json where
  \<comment> \<open>the last message already carries the marker\<close>
  "example_marked_body =
     JObj [(''model'', JStr ''gpt-4''),
           (''messages'', JArr [example_message ''hi'',
              example_message ''hello Respond in the following locale: en.''])]"

definition example_function_body :: json where
  \<comment> \<open>a body with \<open>function_call\<close>\<close>
  "example_function_body =
     JObj [(''function_call'', JStr ''auto''), (''max_tokens'', JNum 100),
           (''messages'', JArr [example_message ''hi''])]"

definition example_plain_body :: json where
  \<comment> \<open>a body with neither \<open>model\<close> nor \<open>max_tokens\<close>\<close>
  "example_plain_body = JObj [(''messages'', JArr [example_message ''hi''])]"

definition example_huge_body :: json where
  \<comment> \<open>a body that asks for \<open>10^19\<close> tokens, more than an \<open>int64\<close> holds\<close>
  "example_huge_body =
     JObj [(''model'', JStr ''gpt-4''), (''max_tokens'', JNum 10000000000000000000),
           (''messages'', JArr [example_message ''hi''])]"

definition example_empty_body :: json where
  \<comment> \<open>a body whose \<open>messages\<close> is the empty array\<close>
  "example_empty_body = JObj [(''model'', JStr ''gpt-4''), (''messages'', JArr [])]"

definition example_chunk :: "string \<Rightarrow> ChatCompletionsStreamResponse" where
  \<comment> \<open>a chunk with one choice whose delta has the given content\<close>
  "example_chunk content =
     \<lparr>Id' = ''x'', Object = ''chat.completion.chunk'', Created = 1700000000,
      Model = ''@cf/deepseek'',
      Choices = [\<lparr>Index = 0, Delta = \<lparr>Role = [], Content = JStr content, Name = None\<rparr>,
                  FinishReason = None\<rparr>]\<rparr>"

definition example_unmarshal :: "string \<Rightarrow> string + ChatCompletionsStreamResponse" where
  \<comment> \<open>a decoder that knows three payloads: a chunk with the content \<open>hi\<close>, a chunk with the
      end-of-sentence token, and the empty object \<open>{}\<close>, which \<open>json.Unmarshal\<close> decodes
      to the chunk whose fields are all zero; it rejects every other text\<close>
  "example_unmarshal s =
     (if s = ''{hi}'' then Inr (example_chunk ''hi'')
      else if s = ''{eos}'' then Inr (example_chunk end_of_sentence)
      else if s = ''{}''
      then Inr \<lparr>Id' = [], Object = [], Created = 0, Model = [], Choices = []\<rparr>
      else Inl ''invalid character'')"

definition example_code_body :: json where
  \<comment> \<open>a completion request with the prompt \<open>abc\<close> and the suffix \<open>def\<close>\<close>
  "example_code_body =
     JObj [(''prompt'', JStr ''abc''), (''suffix'', JStr ''def''), (''extra'', JObj [])]"

definition example_upstream :: "int \<Rightarrow> string list \<Rightarrow> string \<Rightarrow> upstream" where
  \<comment> \<open>an upstream that answers every request with the given status and body reads\<close>
  "example_upstream code reads request = Responded code ''application/json'' reads"

section \<open>Facts about the byte-string operations\<close>


lemma IndexByte_None: "(IndexByte s c = None) = (c \<notin> set s)"
  by (induction s) auto

lemma IndexByte_append: "c \<notin> set l \<Longrightarrow> IndexByte (l @ c # r) c = Some (length l)"
  by (induction l) auto

section \<open>The frame reader\<close>

lemma first_line: "LF \<in> set s \<Longrightarrow> \<exists>l r. s = l @ LF # r \<and> LF \<notin> set l"
  by (metis split_list_first)

lemma scan_line:
  assumes "LF \<notin> set l"
  shows "scan_buffer e (l @ LF # r) = (l # fst (scan_buffer e r), snd (scan_buffer e r))"
proof -
  have "split_func (l @ LF # r) e = (length l + 1, Some l)"
    using assms by (simp add: split_func_def IndexByte_append)
  then show ?thesis
    by (subst scan_buffer.simps) (simp split: prod.splits)
qed

lemma scan_partial_line:
  assumes "LF \<notin> set l"
  shows "scan_buffer False l = ([], l)"
proof -
  have "IndexByte l LF = None" using assms by (simp add: IndexByte_None)
  then show ?thesis
    by (subst scan_buffer.simps) (simp add: split_func_def)
qed

lemma scan_last_line:
  assumes "LF \<notin> set l"
  shows "scan_buffer True l = (if l = [] then [] else [l], [])"
proof -
  have n: "IndexByte l LF = None" using assms by (simp add: IndexByte_None)
  have e: "scan_buffer True [] = ([], [])"
    by (subst scan_buffer.simps) (simp add: split_func_def)
  show ?thesis
  proof (cases "l = []")
    case True
    then show ?thesis by (simp add: e)
  next
    case False
    then show ?thesis
      by (subst scan_buffer.simps) (simp add: split_func_def n e)
  qed
qed

lemma spec_lines_last: "LF \<notin> set l \<Longrightarrow> spec_lines l = (if l = [] then [] else [l])"
  by (induction l) (auto split: list.splits)

lemma spec_lines_line: "LF \<notin> set l \<Longrightarrow> spec_lines (l @ LF # r) = l # spec_lines r"
  by (induction l) (auto split: list.splits)

lemma scan_eof_lines: "fst (scan_buffer True s) = spec_lines s"
proof (induction "length s" arbitrary: s rule: less_induct)
  case less
  show ?case
  proof (cases "LF \<in> set s")
    case False
    then show ?thesis by (simp add: scan_last_line spec_lines_last)
  next
    case True
    then obtain l r where s: "s = l @ LF # r" and l: "LF \<notin> set l"
      using first_line by blast
    have "fst (scan_buffer True r) = spec_lines r"
      using less [of r] s by simp
    then show ?thesis
      using l s by (simp add: scan_line spec_lines_line)
  qed
qed

lemma scan_more_input:
  "scan_buffer e (buf @ inp) =
     (fst (scan_buffer False buf) @ fst (scan_buffer e (snd (scan_buffer False buf) @ inp)),
      snd (scan_buffer e (snd (scan_buffer False buf) @ inp)))"
proof (induction "length buf" arbitrary: buf rule: less_induct)
  case less
  show ?case
  proof (cases "LF \<in> set buf")
    case False
    then show ?thesis by (simp add: scan_partial_line)
  next
    case True
    then obtain l r where s: "buf = l @ LF # r" and l: "LF \<notin> set l"
      using first_line by blast
    have ih: "scan_buffer e (r @ inp) =
     (fst (scan_buffer False r) @ fst (scan_buffer e (snd (scan_buffer False r) @ inp)),
      snd (scan_buffer e (snd (scan_buffer False r) @ inp)))"
      using less [of r] s by simp
    have "scan_buffer e (buf @ inp) = scan_buffer e (l @ LF # (r @ inp))"
      using s by simp
    also have "\<dots> = (l # fst (scan_buffer e (r @ inp)), snd (scan_buffer e (r @ inp)))"
      using l by (rule scan_line)
    finally show ?thesis
      using l s ih by (simp add: scan_line)
  qed
qed

lemma spec_lines_more_input:
  "spec_lines (buf @ inp) =
     fst (scan_buffer False buf) @ spec_lines (snd (scan_buffer False buf) @ inp)"
proof -
  have "fst (scan_buffer True (buf @ inp)) =
          fst (scan_buffer False buf) @ fst (scan_buffer True (snd (scan_buffer False buf) @ inp))"
    by (subst scan_more_input) simp
  then show ?thesis by (simp only: scan_eof_lines)
qed

lemma scan_rest_partial: "LF \<notin> set (snd (scan_buffer False s))"
proof (induction "length s" arbitrary: s rule: less_induct)
  case less
  show ?case
  proof (cases "LF \<in> set s")
    case False
    then show ?thesis by (simp add: scan_partial_line)
  next
    case True
    then obtain l r where s: "s = l @ LF # r" and l: "LF \<notin> set l"
      using first_line by blast
    have "LF \<notin> set (snd (scan_buffer False r))"
      using less [of r] s by simp
    then show ?thesis
      using l s by (simp add: scan_line)
  qed
qed

lemma spec_lines_first:
  assumes "LF \<notin> set l" and "l \<noteq> []"
  shows "\<exists>l' ls. spec_lines (l @ m) = l' # ls \<and> length l \<le> length l'"
proof (cases "LF \<in> set m")
  case False
  then have "spec_lines (l @ m) = [l @ m]"
    using assms by (simp add: spec_lines_last)
  then show ?thesis by simp
next
  case True
  then obtain a b where m: "m = a @ LF # b" and a: "LF \<notin> set a"
    using first_line by blast
  have "spec_lines ((l @ a) @ LF # b) = (l @ a) # spec_lines b"
    using assms a by (intro spec_lines_line) simp
  then show ?thesis using m by simp
qed

lemma scanner_run_short:
  assumes "[] \<notin> set rs"
    and "\<forall>l\<in>set (spec_lines (buf @ concat rs)). length l < MaxScanTokenSize"
  shows "scanner_run n buf rs = spec_lines (buf @ concat rs)"
  using assms
proof (induction rs arbitrary: buf n)
  case Nil
  show ?case by (simp add: scan_eof_lines)
next
  case (Cons r rs)
  obtain toks rest where s: "scan_buffer False (buf @ r) = (toks, rest)"
    by (cases "scan_buffer False (buf @ r)")
  have lines: "spec_lines (buf @ concat (r # rs)) = toks @ spec_lines (rest @ concat rs)"
    using spec_lines_more_input [of "buf @ r" "concat rs"] s by simp
  have short: "\<forall>l\<in>set toks. length l < MaxScanTokenSize"
    and later: "\<forall>l\<in>set (spec_lines (rest @ concat rs)). length l < MaxScanTokenSize"
    using Cons.prems(2) lines by auto
  have fit: "takeWhile (\<lambda>tok. length tok < MaxScanTokenSize) toks = toks"
    using short by (simp add: takeWhile_eq_all_conv)
  have room: "length rest < MaxScanTokenSize"
  proof (cases "rest = []")
    case True
    then show ?thesis by (simp add: MaxScanTokenSize_def)
  next
    case False
    have "LF \<notin> set rest"
      using scan_rest_partial [of "buf @ r"] s by simp
    then obtain l' ls where "spec_lines (rest @ concat rs) = l' # ls" and "length rest \<le> length l'"
      using False spec_lines_first by blast
    then show ?thesis using later by auto
  qed
  have r: "r \<noteq> []" and rs: "[] \<notin> set rs"
    using Cons.prems(1) by auto
  have "scanner_run 0 rest rs = spec_lines (rest @ concat rs)"
    using Cons.IH [of rest 0] rs later by simp
  then show ?case
    using r s fit room lines by simp
qed



lemma TrimSuffix_CR: "TrimSuffix p [CR] = (if p \<noteq> [] \<and> last p = CR then butlast p else p)"
  by (cases p rule: rev_cases) (auto simp: TrimSuffix_def HasSuffix_def)






section \<open>Facts about substrings\<close>

lemma HasPrefix_append: "HasPrefix (p @ r) p"
  by (induction p) auto

lemma Contains_HasPrefix: "HasPrefix s sub \<Longrightarrow> Contains s sub"
  by (cases s) (auto elim: HasPrefix.elims)

lemma Contains_prefix: "Contains (p @ r) p"
  by (simp add: Contains_HasPrefix HasPrefix_append)

lemma Contains_append: "Contains s sub \<Longrightarrow> Contains (a @ s) sub"
  by (induction a) auto

lemma Contains_locale_text: "Contains (c @ locale_text cfg) locale_marker"
proof -
  have "locale_text cfg = locale_marker @ '': '' @ (if ChatLocale cfg = [] then ''zh_CN'' else ChatLocale cfg) @ ''.''"
    by (simp add: locale_text_def locale_marker_def)
  then show ?thesis
    by (simp only: Contains_append Contains_prefix)
qed

section \<open>Facts about numbers as text\<close>

lemma is_digit_digit_char: "d < 10 \<Longrightarrow> is_digit (digit_char d)"
  by (simp add: is_digit_def digit_char_def)

lemma digit_char_value: "d < 10 \<Longrightarrow> (of_char (digit_char d) :: nat) - 48 = d"
  by (simp add: digit_char_def)

lemma FormatUint_digits: "list_all is_digit (FormatUint n)"
  by (induction n rule: FormatUint.induct) (subst FormatUint.simps, simp add: is_digit_digit_char)

lemma FormatUint_not_empty: "FormatUint n \<noteq> []"
  by (subst FormatUint.simps) simp

lemma digits_value_snoc: "digits_value (s @ [c]) = 10 * digits_value s + ((of_char c :: nat) - 48)"
  by (simp add: digits_value_def)

lemma digits_value_FormatUint: "digits_value (FormatUint n) = n"
proof (induction n rule: FormatUint.induct)
  case (1 n)
  show ?case
  proof (cases "n < 10")
    case True
    then show ?thesis
      by (subst FormatUint.simps) (simp add: digits_value_def digit_char_value)
  next
    case False
    then have "digits_value (FormatUint (n div 10)) = n div 10"
      using "1" by simp
    then show ?thesis
      using False by (subst FormatUint.simps) (simp add: digits_value_snoc digit_char_value)
  qed
qed

lemma atoui_FormatUint: "atoui (FormatUint n) = Some n"
  by (simp add: atoui_def FormatUint_digits FormatUint_not_empty digits_value_FormatUint)

lemma atoui_Itoa: "0 \<le> i \<Longrightarrow> atoui (Itoa i) = Some (nat i)"
  by (simp add: Itoa_def atoui_FormatUint)


section \<open>Facts about 64-bit integers\<close>

lemma int64_small:
  "- 9223372036854775808 \<le> i \<Longrightarrow> i < 9223372036854775808 \<Longrightarrow> int64 i = i"
  by (simp add: int64_def)

lemma int64_mod: "int64 a mod 18446744073709551616 = a mod 18446744073709551616"
  by (simp add: int64_def mod_diff_left_eq)

lemma int64_cong:
  assumes "a mod 18446744073709551616 = b mod 18446744073709551616"
  shows "int64 a = int64 b"
proof -
  have "(a + 9223372036854775808) mod 18446744073709551616
      = (b + 9223372036854775808) mod 18446744073709551616"
    using assms by (rule mod_add_cong) simp
  then show ?thesis by (simp add: int64_def)
qed

lemma int64_step: "int64 (int64 a * 10 + b) = int64 (a * 10 + b)"
  by (intro int64_cong mod_add_cong mod_mult_cong int64_mod refl)

lemma int64_negate: "int64 (- int64 a) = int64 (- a)"
  by (intro int64_cong mod_minus_cong int64_mod)

lemma parse_digits_FormatUint:
  "foldl (\<lambda>n c. int64 (n * 10 + int (of_char c - 48))) 0 (FormatUint m) = int64 (int m)"
proof (induction m rule: FormatUint.induct)
  case (1 n)
  show ?case
  proof (cases "n < 10")
    case True
    then show ?thesis
      by (subst FormatUint.simps) (simp add: digit_char_value)
  next
    case False
    then have "foldl (\<lambda>n c. int64 (n * 10 + int (of_char c - 48))) 0 (FormatUint (n div 10))
        = int64 (int (n div 10))"
      using "1" by simp
    moreover have "int (n div 10) * 10 + int (n mod 10) = int n"
      by (simp add: zdiv_int zmod_int)
    ultimately show ?thesis
      using False by (subst FormatUint.simps) (simp add: digit_char_value int64_step)
  qed
qed

lemma FormatUint_no_sign: "FormatUint m = c # cs \<Longrightarrow> c \<noteq> CHR ''-''"
  using FormatUint_digits [of m] by (auto simp: is_digit_def)

lemma parseInt_FormatUint: "parseInt (FormatUint m) = int64 (int m)"
proof -
  obtain c cs where s: "FormatUint m = c # cs"
    using FormatUint_not_empty [of m] by (cases "FormatUint m") simp_all
  have "parseInt (c # cs) =
          foldl (\<lambda>n c. int64 (n * 10 + int (of_char c - 48))) 0 (c # cs)"
    using FormatUint_digits [of m] FormatUint_no_sign [OF s]
    by (simp only: parseInt_def Let_def list.case s if_False if_True)
  then show ?thesis
    using parse_digits_FormatUint [of m] by (simp only: s)
qed

lemma parseInt_Itoa: "parseInt (Itoa n) = int64 n"
proof (cases "n < 0")
  case True
  then show ?thesis
    by (simp add: parseInt_def Itoa_def FormatUint_not_empty FormatUint_digits
          parse_digits_FormatUint int64_negate)
next
  case False
  then show ?thesis
    by (simp add: Itoa_def parseInt_FormatUint)
qed

lemma Result_Int_JNum: "Result_Int (Some (JNum n)) = int64 n"
  by (simp add: Result_Int_def parseInt_Itoa int64_small)

lemma Result_Int_None: "Result_Int None = 0"
  by (simp add: Result_Int_def)
section \<open>Facts about reading and writing paths\<close>

lemma plain_keys:
  "plain_key ''model''" "plain_key ''messages''" "plain_key ''max_tokens''"
  "plain_key ''content''"
  by (simp_all add: plain_key_def atoui_def is_digit_def)

lemma map_of_obj_set: "map_of (obj_set ms k v) k' = (if k' = k then Some v else map_of ms k')"
  by (induction ms) auto

lemma map_of_obj_delete_other: "k' \<noteq> k \<Longrightarrow> map_of (obj_delete ms k) k' = map_of ms k'"
  by (induction ms) auto

lemma obj_set_absent: "map_of ms k = None \<Longrightarrow> obj_set ms k v = ms @ [(k, v)]"
  by (induction ms) (auto split: if_splits)

lemma set_path_key:
  assumes "plain_key k"
  shows "set_path (k # ks) v doc =
     (case doc of
        JObj ms \<Rightarrow>
          (case map_of ms k of
             Some old \<Rightarrow> map_option (\<lambda>new. JObj (obj_set ms k new)) (set_path ks v old)
           | None \<Rightarrow> Some (JObj (obj_set ms k (build_path ks v))))
      | JArr xs \<Rightarrow> None
      | _ \<Rightarrow> Some (JObj [(k, build_path ks v)]))"
  using assms by (cases doc) (auto simp: plain_key_def obj_set_absent split: option.splits)

lemma Get_Set_other:
  assumes "plain_key k" and "k' \<noteq> k"
  shows "gjson_Get (sjson_Set doc (k # ks) v) k' = gjson_Get doc k'"
  using assms
  by (cases doc)
     (auto simp: sjson_Set_def set_path_key gjson_Get_def map_of_obj_set
           simp del: set_path.simps(2) split: option.splits)

lemma Get_Set_same:
  assumes "plain_key k" and "\<And>xs. doc \<noteq> JArr xs"
  shows "gjson_Get (sjson_Set doc [k] v) k = Some v"
  using assms
  by (cases doc)
     (auto simp: sjson_Set_def set_path_key gjson_Get_def map_of_obj_set
           simp del: set_path.simps(2) split: option.splits)

lemma Get_Delete_other: "k' \<noteq> k \<Longrightarrow> gjson_Get (sjson_Delete doc k) k' = gjson_Get doc k'"
  by (cases doc) (auto simp: sjson_Delete_def gjson_Get_def map_of_obj_delete_other)

lemma Get_strip_intent:
  assumes "k \<noteq> ''intent''" "k \<noteq> ''intent_threshold''" "k \<noteq> ''intent_content''"
  shows "gjson_Get (strip_intent body) k = gjson_Get body k"
  using assms by (simp add: strip_intent_def Get_Delete_other)

lemma Get_array_key: "plain_key k \<Longrightarrow> gjson_Get (JArr xs) k = None"
  by (simp add: gjson_Get_def plain_key_def)

lemma Get_some_not_array: "plain_key k \<Longrightarrow> gjson_Get doc k = Some x \<Longrightarrow> doc \<noteq> JArr xs"
  by (auto simp: Get_array_key)

section \<open>The chat request\<close>

lemma Get_rewrite_model_other:
  "k \<noteq> ''model'' \<Longrightarrow> gjson_Get (rewrite_model cfg body) k = gjson_Get body k"
  by (simp add: rewrite_model_def Let_def Get_Set_other plain_keys)

lemma Get_rewrite_model:
  assumes "\<And>xs. body \<noteq> JArr xs"
  shows "gjson_Get (rewrite_model cfg body) ''model'' =
     Some (JStr (case ChatModelMap cfg (Result_String (gjson_Get body ''model'')) of
                   Some mapped \<Rightarrow> mapped
                 | None \<Rightarrow> ChatModelDefault cfg))"
  using assms by (simp add: rewrite_model_def Let_def Get_Set_same plain_keys)

lemma rewrite_model_array: "rewrite_model cfg (JArr xs) = JArr xs"
  by (simp add: rewrite_model_def Let_def sjson_Set_def set_path_key plain_keys
           del: set_path.simps(2))

lemma add_locale_no_message:
  assumes "gjson_Get body ''function_call'' = None"
    and "gjson_Get body ''messages'' = None \<or> gjson_Get body ''messages'' = Some (JArr [])"
  shows "add_locale cfg body = Inl (IndexOutOfRange (- 1) 0)"
  using assms
  by (auto simp: add_locale_def Result_Exists_def Result_Array_def index_at_def Let_def)

lemma Get_add_locale_other:
  assumes "add_locale cfg body = Inr body'" and "k \<noteq> ''messages''"
  shows "gjson_Get body' k = gjson_Get body k"
  using assms
  by (auto simp: add_locale_def Let_def Get_Set_other plain_keys
           split: if_splits sum.splits)

lemma Get_clamp_other:
  "k \<noteq> ''max_tokens'' \<Longrightarrow> gjson_Get (clamp_max_tokens cfg body) k = gjson_Get body k"
  by (simp add: clamp_max_tokens_def Get_Set_other plain_keys)

lemma completions_body_Inr:
  assumes "completions_body cfg body = Inr body'"
  obtains b where "add_locale cfg (rewrite_model cfg body) = Inr b"
    and "body' = clamp_max_tokens cfg (strip_intent b)"
  using assms by (auto simp: completions_body_def split: sum.splits)

lemma Get_model_add_locale:
  assumes "add_locale cfg (rewrite_model cfg body) = Inr b"
  shows "gjson_Get b ''model'' =
     Some (JStr (case ChatModelMap cfg (Result_String (gjson_Get body ''model'')) of
                   Some mapped \<Rightarrow> mapped
                 | None \<Rightarrow> ChatModelDefault cfg))"
proof -
  have not_array: "body \<noteq> JArr xs" for xs
  proof
    assume "body = JArr xs"
    then have "add_locale cfg (rewrite_model cfg body) = Inl (IndexOutOfRange (- 1) 0)"
      by (simp add: rewrite_model_array add_locale_no_message Get_array_key plain_keys
            gjson_Get_def atoui_def is_digit_def)
    with assms show False by simp
  qed
  have "gjson_Get b ''model'' = gjson_Get (rewrite_model cfg body) ''model''"
    using assms by (rule Get_add_locale_other) simp
  then show ?thesis
    using not_array by (simp add: Get_rewrite_model)
qed


text \<open>
  Claim C10. A body without \<open>function_call\<close> whose \<open>messages\<close> member is absent or an empty
  array makes the handler read \<open>messages[-1]\<close>: it ends in Go's index-out-of-range panic
  (index \<open>-1\<close>, length \<open>0\<close>) and no request is forwarded.
\<close>

theorem completions_no_message_panics:
  assumes "gjson_Get body ''function_call'' = None"
    and "gjson_Get body ''messages'' = None \<or> gjson_Get body ''messages'' = Some (JArr [])"
  shows "completions_body cfg body = Inl (IndexOutOfRange (- 1) 0)"
proof -
  have "add_locale cfg (rewrite_model cfg body) = Inl (IndexOutOfRange (- 1) 0)"
    using assms by (intro add_locale_no_message) (simp_all add: Get_rewrite_model_other)
  then show ?thesis
    by (simp add: completions_body_def)
qed

lemma index_at_last: "ms \<noteq> [] \<Longrightarrow> index_at ms (int (length ms) - 1) = Inr (last ms)"
  by (cases ms rule: rev_cases) (auto simp: index_at_def nth_append)

lemma Set_last_message:
  assumes "gjson_Get doc ''messages'' = Some (JArr ms)" and "ms \<noteq> []"
    and "last ms = JObj fs"
  shows "sjson_Set doc [''messages'', Itoa (int (length ms) - 1), ''content''] v =
         sjson_Set doc [''messages'']
           (JArr (ms[length ms - 1 := JObj (obj_set fs ''content'' v)]))"
proof -
  obtain bs where doc: "doc = JObj bs" and bs: "map_of bs ''messages'' = Some (JArr ms)"
    using assms(1) by (cases doc) (auto simp: gjson_Get_def plain_keys [unfolded plain_key_def])
  have i: "atoui (Itoa (int (length ms) - 1)) = Some (length ms - 1)"
    using assms(2) by (simp add: atoui_Itoa nat_diff_distrib')
  have l: "ms ! (length ms - 1) = JObj fs"
    using assms(2,3) by (simp add: last_conv_nth)
  have content: "set_path [''content''] v (JObj fs) = Some (JObj (obj_set fs ''content'' v))"
    by (simp add: set_path_key plain_keys del: set_path.simps(2) split: option.splits)
  have less: "length ms - 1 < length ms"
    using assms(2) by simp
  have inner: "set_path [Itoa (int (length ms) - 1), ''content''] v (JArr ms)
        = Some (JArr (ms[length ms - 1 := JObj (obj_set fs ''content'' v)]))"
    by (subst set_path.simps(2))
       (simp only: json.case i option.case less if_True l content option.map)
  show ?thesis
    by (simp add: sjson_Set_def doc bs set_path_key plain_keys inner del: set_path.simps(2))
qed

lemma add_locale_function_call:
  "gjson_Get body ''function_call'' \<noteq> None \<Longrightarrow> add_locale cfg body = Inr body"
  by (simp add: add_locale_def Result_Exists_def)

lemma add_locale_last_message:
  assumes "gjson_Get body ''function_call'' = None"
    and "gjson_Get body ''messages'' = Some (JArr ms)" and "ms \<noteq> []"
    and "last ms = JObj fs"
  shows "add_locale cfg body =
     Inr (if \<not> Contains (Result_String (map_of fs ''content'')) locale_marker
          then sjson_Set body [''messages'']
                 (JArr (ms[length ms - 1 := JObj (obj_set fs ''content''
                    (JStr (Result_String (map_of fs ''content'') @ locale_text cfg)))]))
          else body)"
proof -
  have "Result_Array (gjson_Get body ''messages'') = ms"
    using assms(2) by (simp add: Result_Array_def)
  moreover have "gjson_Get (JObj fs) ''content'' = map_of fs ''content''"
    by (simp add: gjson_Get_def)
  ultimately show ?thesis
    using assms
    by (simp add: add_locale_def Result_Exists_def Let_def index_at_last Set_last_message)
qed

lemma Get_completions_messages:
  assumes "add_locale cfg (rewrite_model cfg body) = Inr b"
  shows "completions_body cfg body = Inr (clamp_max_tokens cfg (strip_intent b)) \<and>
         gjson_Get (clamp_max_tokens cfg (strip_intent b)) ''messages'' = gjson_Get b ''messages''"
  using assms by (simp add: completions_body_def Get_clamp_other Get_strip_intent)

lemma last_content_messages:
  assumes "gjson_Get body ''messages'' = Some (JArr ms)" and "ms \<noteq> []"
  shows "last_content body = Result_String (gjson_Get (last ms) ''content'')"
  using assms
  by (cases ms rule: rev_cases) (simp_all add: last_content_def Result_Array_def)

text \<open>
  Claim C4, as amended. The text that \<open>completions\<close> adds to the content of the last
  message is \<open>Respond in the following locale: <locale>.\<close> with no space before it, where
  the locale is \<open>ChatLocale\<close>, or \<open>zh_CN\<close> when that is empty. For a body without
  \<open>function_call\<close> whose \<open>messages\<close> is an array that ends in an object: when the content of
  that object (as \<open>gjson\<close> reads it) lacks the marker \<open>Respond in the following locale\<close>,
  the forwarded \<open>messages\<close> differ from the client's only in that content, which is the
  old content followed by the added text; when the content has the marker, the forwarded
  \<open>messages\<close> are the client's. A body with \<open>function_call\<close> keeps its \<open>messages\<close>, too.
\<close>

theorem completions_locale_appended:
  "(gjson_Get body ''function_call'' = None \<and> gjson_Get body ''messages'' = Some (JArr ms) \<and>
    ms \<noteq> [] \<and> last ms = JObj fs \<and>
    \<not> Contains (Result_String (map_of fs ''content'')) ''Respond in the following locale''
    \<longrightarrow> (\<exists>body'. completions_body cfg body = Inr body' \<and>
           gjson_Get body' ''messages'' =
             Some (JArr (ms[length ms - 1 := JObj (obj_set fs ''content''
               (JStr (Result_String (map_of fs ''content'') @
                      ''Respond in the following locale: '' @
                      (if ChatLocale cfg = [] then ''zh_CN'' else ChatLocale cfg) @ ''.'')))]))))
   \<and>
   (gjson_Get body ''function_call'' = None \<and> gjson_Get body ''messages'' = Some (JArr ms) \<and>
    ms \<noteq> [] \<and> last ms = JObj fs \<and>
    Contains (Result_String (map_of fs ''content'')) ''Respond in the following locale''
    \<longrightarrow> (\<exists>body'. completions_body cfg body = Inr body' \<and>
           gjson_Get body' ''messages'' = gjson_Get body ''messages''))
   \<and>
   (gjson_Get body ''function_call'' \<noteq> None
    \<longrightarrow> (\<exists>body'. completions_body cfg body = Inr body' \<and>
           gjson_Get body' ''messages'' = gjson_Get body ''messages''))"
proof (intro conjI impI)
  let ?b = "rewrite_model cfg body"
  let ?c = "Result_String (map_of fs ''content'')"
  {
    assume a: "gjson_Get body ''function_call'' = None \<and>
      gjson_Get body ''messages'' = Some (JArr ms) \<and> ms \<noteq> [] \<and> last ms = JObj fs \<and>
      \<not> Contains ?c ''Respond in the following locale''"
    let ?ms' = "JArr (ms[length ms - 1 := JObj (obj_set fs ''content''
                   (JStr (?c @ locale_text cfg)))])"
    have "add_locale cfg ?b = Inr (sjson_Set ?b [''messages''] ?ms')"
      using a add_locale_last_message [of ?b ms fs cfg]
      by (simp add: Get_rewrite_model_other locale_marker_def)
    moreover have "gjson_Get (sjson_Set ?b [''messages''] ?ms') ''messages'' = Some ?ms'"
      using a by (intro Get_Set_same plain_keys Get_some_not_array [of "''messages''" _ "JArr ms"])
        (simp_all add: Get_rewrite_model_other plain_keys)
    ultimately show "\<exists>body'. completions_body cfg body = Inr body' \<and>
           gjson_Get body' ''messages'' =
             Some (JArr (ms[length ms - 1 := JObj (obj_set fs ''content''
               (JStr (?c @ ''Respond in the following locale: '' @
                      (if ChatLocale cfg = [] then ''zh_CN'' else ChatLocale cfg) @ ''.'')))]))"
      using Get_completions_messages [of cfg body] by (simp add: locale_text_def)
  }
  {
    assume a: "gjson_Get body ''function_call'' = None \<and>
      gjson_Get body ''messages'' = Some (JArr ms) \<and> ms \<noteq> [] \<and> last ms = JObj fs \<and>
      Contains ?c ''Respond in the following locale''"
    have "add_locale cfg ?b = Inr ?b"
      using a add_locale_last_message [of ?b ms fs cfg]
      by (simp add: Get_rewrite_model_other locale_marker_def)
    then show "\<exists>body'. completions_body cfg body = Inr body' \<and>
           gjson_Get body' ''messages'' = gjson_Get body ''messages''"
      using Get_completions_messages [of cfg body ?b] by (simp add: Get_rewrite_model_other)
  }
  {
    assume "gjson_Get body ''function_call'' \<noteq> None"
    then have "add_locale cfg ?b = Inr ?b"
      by (intro add_locale_function_call) (simp add: Get_rewrite_model_other)
    then show "\<exists>body'. completions_body cfg body = Inr body' \<and>
           gjson_Get body' ''messages'' = gjson_Get body ''messages''"
      using Get_completions_messages [of cfg body ?b] by (simp add: Get_rewrite_model_other)
  }
qed

text \<open>
  Claim C5. Adding the locale text is idempotent. On the content of a message, doing it
  twice gives what doing it once gives, because the added text contains the marker that
  the guard looks for. In the handler, for a body without \<open>function_call\<close> whose \<open>messages\<close>
  is an array that ends in an object, the step leaves the last message with that content,
  and running the step again on its own result changes nothing.
\<close>

theorem locale_augmentation_idempotent:
  "augment_content cfg (augment_content cfg content) = augment_content cfg content \<and>
   (gjson_Get body ''function_call'' = None \<and> gjson_Get body ''messages'' = Some (JArr ms) \<and>
    ms \<noteq> [] \<and> last ms = JObj fs
    \<longrightarrow> (\<exists>body'. add_locale cfg body = Inr body' \<and>
           last_content body' = augment_content cfg (last_content body) \<and>
           add_locale cfg body' = Inr body'))"
proof (intro conjI impI)
  show "augment_content cfg (augment_content cfg content) = augment_content cfg content"
    by (simp add: augment_content_def Contains_locale_text)
next
  let ?c = "Result_String (map_of fs ''content'')"
  assume a: "gjson_Get body ''function_call'' = None \<and>
    gjson_Get body ''messages'' = Some (JArr ms) \<and> ms \<noteq> [] \<and> last ms = JObj fs"
  then have c: "last_content body = ?c"
    by (simp add: last_content_messages gjson_Get_def)
  have first: "add_locale cfg body =
     Inr (if \<not> Contains ?c locale_marker
          then sjson_Set body [''messages'']
                 (JArr (ms[length ms - 1 := JObj (obj_set fs ''content''
                    (JStr (?c @ locale_text cfg)))]))
          else body)"
    using a by (intro add_locale_last_message) simp_all
  show "\<exists>body'. add_locale cfg body = Inr body' \<and>
           last_content body' = augment_content cfg (last_content body) \<and>
           add_locale cfg body' = Inr body'"
  proof (cases "Contains ?c locale_marker")
    case True
    then show ?thesis
      using first c by (simp add: augment_content_def)
  next
    case False
    let ?fs' = "obj_set fs ''content'' (JStr (?c @ locale_text cfg))"
    let ?ms' = "ms[length ms - 1 := JObj ?fs']"
    let ?b = "sjson_Set body [''messages''] (JArr ?ms')"
    have b: "add_locale cfg body = Inr ?b"
      using first False by simp
    have fc: "gjson_Get ?b ''function_call'' = None"
      using a by (simp add: Get_Set_other plain_keys)
    have msgs: "gjson_Get ?b ''messages'' = Some (JArr ?ms')"
      using a by (intro Get_Set_same plain_keys Get_some_not_array [of "''messages''" _ "JArr ms"])
        (simp_all add: plain_keys)
    have ne: "?ms' \<noteq> []"
      using a by simp
    have l: "last ?ms' = JObj ?fs'"
      using a by (simp add: last_conv_nth)
    have content: "Result_String (map_of ?fs' ''content'') = ?c @ locale_text cfg"
      by (simp add: map_of_obj_set Result_String_def)
    have "last_content ?b = ?c @ locale_text cfg"
      using msgs ne l content by (simp add: last_content_messages gjson_Get_def)
    moreover have "add_locale cfg ?b = Inr ?b"
      using add_locale_last_message [OF fc msgs ne l, of cfg]
      by (simp only: content Contains_locale_text not_True_eq_False if_False)
    ultimately show ?thesis
      using b c False by (simp add: augment_content_def)
  qed
qed

text \<open>
  Claim C8, as amended. Whenever \<open>completions\<close> forwards a request: an integer
  \<open>max_tokens\<close> above \<open>ChatMaxTokens\<close> is forwarded as \<open>ChatMaxTokens\<close>, and one at or
  below it is forwarded as it is, for every integer that an \<open>int64\<close> holds (from \<open>-2^63\<close>
  to \<open>2^63 - 1\<close>); an absent \<open>max_tokens\<close> counts as \<open>0\<close>: it stays absent when
  \<open>ChatMaxTokens\<close> is not negative, and is set to \<open>ChatMaxTokens\<close> when that is negative.
\<close>

theorem completions_max_tokens_clamped:
  assumes "completions_body cfg body = Inr body'"
  shows
   "(gjson_Get body ''max_tokens'' = Some (JNum n) \<and>
       - 9223372036854775808 \<le> n \<and> n < 9223372036854775808 \<and> ChatMaxTokens cfg < n
     \<longrightarrow> gjson_Get body' ''max_tokens'' = Some (JNum (ChatMaxTokens cfg))) \<and>
    (gjson_Get body ''max_tokens'' = Some (JNum n) \<and>
       - 9223372036854775808 \<le> n \<and> n < 9223372036854775808 \<and> n \<le> ChatMaxTokens cfg
     \<longrightarrow> gjson_Get body' ''max_tokens'' = Some (JNum n)) \<and>
    (gjson_Get body ''max_tokens'' = None \<and> 0 \<le> ChatMaxTokens cfg
     \<longrightarrow> gjson_Get body' ''max_tokens'' = None) \<and>
    (gjson_Get body ''max_tokens'' = None \<and> ChatMaxTokens cfg < 0
     \<longrightarrow> gjson_Get body' ''max_tokens'' = Some (JNum (ChatMaxTokens cfg)))"
proof -
  obtain b where b: "add_locale cfg (rewrite_model cfg body) = Inr b"
    and body': "body' = clamp_max_tokens cfg (strip_intent b)"
    using assms by (rule completions_body_Inr)
  have "gjson_Get b ''max_tokens'' = gjson_Get (rewrite_model cfg body) ''max_tokens''"
    using b by (rule Get_add_locale_other) simp
  then have same: "gjson_Get (strip_intent b) ''max_tokens'' = gjson_Get body ''max_tokens''"
    by (simp add: Get_strip_intent Get_rewrite_model_other)
  show ?thesis
  proof (intro conjI impI)
    assume a: "gjson_Get body ''max_tokens'' = Some (JNum n) \<and>
       - 9223372036854775808 \<le> n \<and> n < 9223372036854775808 \<and> ChatMaxTokens cfg < n"
    then have "strip_intent b \<noteq> JArr xs" for xs
      using same Get_some_not_array [of "''max_tokens''" "strip_intent b" "JNum n" xs]
      by (simp add: plain_keys)
    then show "gjson_Get body' ''max_tokens'' = Some (JNum (ChatMaxTokens cfg))"
      using a same
      by (simp add: body' clamp_max_tokens_def Result_Int_JNum int64_small Get_Set_same
            plain_keys)
  next
    assume "gjson_Get body ''max_tokens'' = Some (JNum n) \<and>
       - 9223372036854775808 \<le> n \<and> n < 9223372036854775808 \<and> n \<le> ChatMaxTokens cfg"
    then show "gjson_Get body' ''max_tokens'' = Some (JNum n)"
      using same by (simp add: body' clamp_max_tokens_def Result_Int_JNum int64_small)
  next
    assume "gjson_Get body ''max_tokens'' = None \<and> 0 \<le> ChatMaxTokens cfg"
    then show "gjson_Get body' ''max_tokens'' = None"
      using same by (simp add: body' clamp_max_tokens_def Result_Int_None)
  next
    assume a: "gjson_Get body ''max_tokens'' = None \<and> ChatMaxTokens cfg < 0"
    have "gjson_Get (strip_intent b) ''model'' \<noteq> None"
      using Get_model_add_locale [OF b] by (simp add: Get_strip_intent)
    then have "strip_intent b \<noteq> JArr xs" for xs
      using Get_array_key [of "''model''" xs] by (auto simp: plain_keys)
    then show "gjson_Get body' ''max_tokens'' = Some (JNum (ChatMaxTokens cfg))"
      using a same
      by (simp add: body' clamp_max_tokens_def Result_Int_None Get_Set_same plain_keys)
  qed
qed
section \<open>The chat request on the example inputs\<close>

lemmas example_defs =
  example_config_def example_chat_body_def example_message_def example_marked_body_def
  example_function_body_def example_plain_body_def example_empty_body_def

lemma example_chat_result:
  "completions_body example_config example_chat_body =
     Inr (JObj [(''model'', JStr ''gpt-4-turbo''), (''max_tokens'', JNum 4096),
           (''messages'', JArr [example_message ''hiRespond in the following locale: zh_CN.''])])"
  by code_simp

lemma example_function_result:
  "completions_body example_config example_function_body =
     Inr (JObj [(''function_call'', JStr ''auto''), (''max_tokens'', JNum 100),
           (''messages'', JArr [example_message ''hi'']), (''model'', JStr ''gpt-4o'')])"
  by code_simp

lemma example_plain_result:
  "completions_body example_config example_plain_body =
     Inr (JObj [(''messages'', JArr [example_message ''hiRespond in the following locale: zh_CN.'']),
           (''model'', JStr ''gpt-4o'')])"
  by code_simp

lemma example_negative_result:
  "completions_body (example_config\<lparr>ChatMaxTokens := - 1\<rparr>) example_plain_body =
     Inr (JObj [(''messages'', JArr [example_message ''hiRespond in the following locale: zh_CN.'']),
           (''model'', JStr ''gpt-4o''), (''max_tokens'', JNum (- 1))])"
  by code_simp

lemma example_huge_result:
  "completions_body example_config example_huge_body =
     Inr (JObj [(''model'', JStr ''gpt-4-turbo''), (''max_tokens'', JNum 10000000000000000000),
           (''messages'', JArr [example_message ''hiRespond in the following locale: zh_CN.''])])"
proof -
  let ?b = "JObj [(''model'', JStr ''gpt-4-turbo''), (''max_tokens'', JNum 10000000000000000000),
           (''messages'', JArr [example_message ''hiRespond in the following locale: zh_CN.''])]"
  have "add_locale example_config (rewrite_model example_config example_huge_body) = Inr ?b"
    by code_simp
  moreover have "strip_intent ?b = ?b"
    by code_simp
  moreover have "Result_Int (gjson_Get ?b ''max_tokens'') = - 8446744073709551616"
    by (simp add: gjson_Get_def Result_Int_JNum int64_def)
  then have "clamp_max_tokens example_config ?b = ?b"
    by (simp add: clamp_max_tokens_def example_config_def)
  ultimately show ?thesis
    by (simp add: completions_body_def)
qed


text \<open>
  Claim C10 on a body whose \<open>messages\<close> is empty and on the empty object.
\<close>

theorem completions_no_message_panics_witness:
  "gjson_Get example_empty_body ''function_call'' = None \<and>
   gjson_Get example_empty_body ''messages'' = Some (JArr []) \<and>
   completions_body example_config example_empty_body = Inl (IndexOutOfRange (- 1) 0) \<and>
   gjson_Get (JObj []) ''messages'' = None \<and>
   completions_body example_config (JObj []) = Inl (IndexOutOfRange (- 1) 0)"
  using completions_no_message_panics [of example_empty_body example_config]
    completions_no_message_panics [of "JObj []" example_config]
  by (simp add: example_defs gjson_Get_def)

text \<open>
  Claim C8, as amended, on four requests: \<open>max_tokens\<close> above the cap, below it, absent,
  and absent under a negative cap.
\<close>

theorem completions_max_tokens_clamped_witness:
  "(\<exists>body'. completions_body example_config example_chat_body = Inr body' \<and>
       gjson_Get example_chat_body ''max_tokens'' = Some (JNum 8192) \<and>
       gjson_Get body' ''max_tokens'' = Some (JNum 4096)) \<and>
   (\<exists>body'. completions_body example_config example_function_body = Inr body' \<and>
       gjson_Get example_function_body ''max_tokens'' = Some (JNum 100) \<and>
       gjson_Get body' ''max_tokens'' = Some (JNum 100)) \<and>
   (\<exists>body'. completions_body example_config example_plain_body = Inr body' \<and>
       gjson_Get example_plain_body ''max_tokens'' = None \<and>
       gjson_Get body' ''max_tokens'' = None) \<and>
   (\<exists>body'. completions_body (example_config\<lparr>ChatMaxTokens := - 1\<rparr>) example_plain_body
         = Inr body' \<and>
       gjson_Get body' ''max_tokens'' = Some (JNum (- 1)))"
  using completions_max_tokens_clamped [OF example_chat_result, of 8192]
    completions_max_tokens_clamped [OF example_function_result, of 100]
    completions_max_tokens_clamped [OF example_plain_result]
    completions_max_tokens_clamped [OF example_negative_result]
    example_chat_result example_function_result example_plain_result example_negative_result
  by (simp add: example_defs gjson_Get_def)

text \<open>
  Claim C8 as stated fails on two requests. Where the cap is negative, an absent
  \<open>max_tokens\<close> reads as \<open>0\<close>, which exceeds a cap of \<open>-1\<close>, so the member is added to the
  forwarded body. And a \<open>max_tokens\<close> of \<open>10^19\<close>, which is more than an \<open>int64\<close> holds,
  is read by \<open>Int()\<close> as \<open>10^19 - 2^64\<close>, a negative number: line 317 finds it below the
  cap of 4096 and the request is forwarded with its \<open>max_tokens\<close> of \<open>10^19\<close>.
\<close>

theorem max_tokens_clamp_counterexample:
  "gjson_Get example_plain_body ''max_tokens'' = None \<and>
   completions_body (example_config\<lparr>ChatMaxTokens := - 1\<rparr>) example_plain_body =
     Inr (JObj [(''messages'', JArr [example_message ''hiRespond in the following locale: zh_CN.'']),
           (''model'', JStr ''gpt-4o''), (''max_tokens'', JNum (- 1))]) \<and>
   gjson_Get (JObj [(''messages'', JArr [example_message ''hiRespond in the following locale: zh_CN.'']),
           (''model'', JStr ''gpt-4o''), (''max_tokens'', JNum (- 1))]) ''max_tokens''
     = Some (JNum (- 1)) \<and>
   gjson_Get example_huge_body ''max_tokens'' = Some (JNum 10000000000000000000) \<and>
   ChatMaxTokens example_config = 4096 \<and>
   Result_Int (gjson_Get example_huge_body ''max_tokens'') = - 8446744073709551616 \<and>
   completions_body example_config example_huge_body =
     Inr (JObj [(''model'', JStr ''gpt-4-turbo''), (''max_tokens'', JNum 10000000000000000000),
           (''messages'', JArr [example_message ''hiRespond in the following locale: zh_CN.''])]) \<and>
   gjson_Get (JObj [(''model'', JStr ''gpt-4-turbo''), (''max_tokens'', JNum 10000000000000000000),
           (''messages'', JArr [example_message ''hiRespond in the following locale: zh_CN.''])])
     ''max_tokens'' = Some (JNum 10000000000000000000)"
proof -
  have "completions_body (example_config\<lparr>ChatMaxTokens := - 1\<rparr>) example_plain_body =
     Inr (JObj [(''messages'', JArr [example_message ''hiRespond in the following locale: zh_CN.'']),
           (''model'', JStr ''gpt-4o''), (''max_tokens'', JNum (- 1))])"
    by code_simp
  moreover have "Result_Int (gjson_Get example_huge_body ''max_tokens'') = - 8446744073709551616"
    by (simp add: example_huge_body_def gjson_Get_def Result_Int_JNum int64_def)
  ultimately show ?thesis
    using example_huge_result
    by (simp add: gjson_Get_def example_plain_body_def example_huge_body_def example_config_def)
qed

text \<open>
  Claim C4 as stated fails: the content \<open>hi\<close> is forwarded as
  \<open>hiRespond in the following locale: zh_CN.\<close>, with no space before the added text.
\<close>

theorem locale_leading_space_counterexample:
  "gjson_Get example_chat_body ''function_call'' = None \<and>
   last_content example_chat_body = ''hi'' \<and>
   \<not> Contains ''hi'' ''Respond in the following locale'' \<and>
   completions_body example_config example_chat_body =
     Inr (JObj [(''model'', JStr ''gpt-4-turbo''), (''max_tokens'', JNum 4096),
           (''messages'', JArr [example_message ''hiRespond in the following locale: zh_CN.''])]) \<and>
   last_content (JObj [(''model'', JStr ''gpt-4-turbo''), (''max_tokens'', JNum 4096),
           (''messages'', JArr [example_message ''hiRespond in the following locale: zh_CN.''])])
     = ''hiRespond in the following locale: zh_CN.'' \<and>
   ''hiRespond in the following locale: zh_CN.'' \<noteq>
     ''hi'' @ '' Respond in the following locale: '' @ ''zh_CN'' @ ''.''"
  by code_simp

text \<open>
  Claim C4, as amended, on three requests: a last message without the marker, one with
  it, and a body with \<open>function_call\<close>.
\<close>

theorem completions_locale_appended_witness:
  "(\<exists>body'. completions_body example_config example_chat_body = Inr body' \<and>
       gjson_Get body' ''messages'' =
         Some (JArr [example_message ''hiRespond in the following locale: zh_CN.''])) \<and>
   (\<exists>body'. completions_body example_config example_marked_body = Inr body' \<and>
       gjson_Get body' ''messages'' = gjson_Get example_marked_body ''messages'') \<and>
   (\<exists>body'. completions_body example_config example_function_body = Inr body' \<and>
       gjson_Get body' ''messages'' = gjson_Get example_function_body ''messages'')"
  using completions_locale_appended [of example_chat_body "[example_message ''hi'']"
      "[(''role'', JStr ''user''), (''content'', JStr ''hi'')]" example_config]
    completions_locale_appended [of example_marked_body
      "[example_message ''hi'', example_message ''hello Respond in the following locale: en.'']"
      "[(''role'', JStr ''user''), (''content'', JStr ''hello Respond in the following locale: en.'')]"
      example_config]
    completions_locale_appended [of example_function_body]
  by (simp add: example_defs gjson_Get_def Result_String_def)

text \<open>
  Claim C5 on the content \<open>hi\<close> and on the example request.
\<close>

theorem locale_augmentation_idempotent_witness:
  "augment_content example_config ''hi'' = ''hiRespond in the following locale: zh_CN.'' \<and>
   augment_content example_config ''hiRespond in the following locale: zh_CN.''
     = ''hiRespond in the following locale: zh_CN.'' \<and>
   (\<exists>body'. add_locale example_config example_chat_body = Inr body' \<and>
       last_content body' = augment_content example_config (last_content example_chat_body) \<and>
       add_locale example_config body' = Inr body')"
proof -
  have "augment_content example_config ''hi'' = ''hiRespond in the following locale: zh_CN.''"
    by code_simp
  then show ?thesis
    using locale_augmentation_idempotent [of example_config "''hi''" example_chat_body
        "[example_message ''hi'']" "[(''role'', JStr ''user''), (''content'', JStr ''hi'')]"]
    by (simp add: example_defs gjson_Get_def)
qed

section \<open>The code-completion handler\<close>



lemma data_step_keeps_open:
  "stream_step cfg unmarshal now rid (Data d) c = Inr (keepOpen, c') \<Longrightarrow> keepOpen"
  by (auto simp: stream_step_def Let_def json_Marshal_def split: sum.splits if_splits)

lemma Stream_data_then:
  "Stream (stream_step cfg unmarshal now rid) (map Data ps @ es) c =
     (case Stream (stream_step cfg unmarshal now rid) (map Data ps) c of
        Inl e \<Rightarrow> Inl e
      | Inr c' \<Rightarrow> Stream (stream_step cfg unmarshal now rid) es c')"
proof (induction ps arbitrary: c)
  case Nil
  show ?case by simp
next
  case (Cons p ps)
  show ?case
  proof (cases "stream_step cfg unmarshal now rid (Data p) c")
    case (Inl e)
    then show ?thesis by simp
  next
    case (Inr r)
    then obtain k c1 where r: "stream_step cfg unmarshal now rid (Data p) c = Inr (k, c1)"
      by (cases r) simp
    then have k by (rule data_step_keeps_open)
    then show ?thesis using r Cons [of c1] by simp
  qed
qed

lemma stop_step:
  "stream_step cfg unmarshal now rid Stop c =
     Inr (False, Render ''data: [DONE]''
                   (Render (''data: '' @ Marshal_Response (finish_chunk cfg now rid)) c))"
  by (simp add: stream_step_def json_Marshal_def)

lemma written_Render: "written (Render d c) = written c @ [writeData d]"
  by (simp add: Render_def WriteContentType_def c_Header_def Let_def)


lemma data_step_no_panic:
  assumes "HasPrefix (CodeInstructModel cfg) ''@'' \<longrightarrow>
           (\<forall>p r. unmarshal p = Inr r \<longrightarrow> Choices r \<noteq> [])"
  shows "\<exists>c'. stream_step cfg unmarshal now rid (Data d) c = Inr (True, c')"
proof (cases "unmarshal (TrimSuffix d [CR])")
  case (Inl err)
  then show ?thesis by (simp add: stream_step_def Let_def)
next
  case (Inr r)
  show ?thesis
  proof (cases "HasPrefix (CodeInstructModel cfg) ''@''")
    case False
    then show ?thesis using Inr by (simp add: stream_step_def Let_def)
  next
    case True
    then have "Choices r \<noteq> []" using assms Inr by blast
    then have "\<exists>r'. blank_end_of_sentence r = Inr r'"
      by (cases "Choices r") (simp_all add: blank_end_of_sentence_def)
    then obtain r' where "blank_end_of_sentence r = Inr r'"
      by blast
    then show ?thesis
      using Inr True by (simp add: stream_step_def Let_def json_Marshal_def)
  qed
qed

lemma Stream_data_no_panic:
  assumes "HasPrefix (CodeInstructModel cfg) ''@'' \<longrightarrow>
           (\<forall>p r. unmarshal p = Inr r \<longrightarrow> Choices r \<noteq> [])"
  shows "\<exists>c'. Stream (stream_step cfg unmarshal now rid) (map Data ps) c = Inr c'"
proof (induction ps arbitrary: c)
  case Nil
  show ?case by simp
next
  case (Cons p ps)
  obtain c1 where "stream_step cfg unmarshal now rid (Data p) c = Inr (True, c1)"
    using data_step_no_panic [OF assms] by blast
  then show ?case using Cons [of c1] by simp
qed

text \<open>
  What the code does at the end of a stream. On the end-of-stream signal the translator
  writes exactly two events and closes the stream: the finish chunk (id
  \<open>chatcmpl-<request id>\<close>, object \<open>chat.completion.chunk\<close>, the current time, the
  configured model, one choice with an empty delta and the finish reason \<open>stop\<close>) and then
  \<open>data: [DONE]\<close>. A payload \<open>[DONE]\<close> from the upstream, which \<open>json.Unmarshal\<close> rejects,
  writes nothing and logs nothing. For the whole handler on a 200 response: if the handler
  returns, it has written exactly these two events at the end, after the events of the
  data payloads; and it returns when the backend's model name does not start with \<open>@\<close>.
  On an \<open>@\<close> backend it returns only if no payload decodes to a chunk without choices:
  line 477 panics on such a chunk, and then neither event is written.
\<close>

lemma stream_finish_and_terminator:
  "(\<exists>c'. stream_step cfg unmarshal now rid Stop c = Inr (False, c') \<and>
      written c' = written c @
        [writeData (''data: '' @ Marshal_Response
           \<lparr>Id' = rid, Object = ''chat.completion.chunk'', Created = now,
            Model = CodeInstructModel cfg,
            Choices = [\<lparr>Index = 0, Delta = \<lparr>Role = [], Content = JNull, Name = None\<rparr>,
                        FinishReason = Some ''stop''\<rparr>]\<rparr>),
         ''data: [DONE]'' @ [LF, LF]]) \<and>
   ((\<exists>err. unmarshal ''[DONE]'' = Inl err) \<longrightarrow>
      stream_step cfg unmarshal now rid (Data ''[DONE]'') c = Inr (True, c) \<and>
      stream_step cfg unmarshal now rid (Data (''[DONE]'' @ [CR])) c = Inr (True, c)) \<and>
   (send (ConstructRequestBody body cfg) = Responded 200 contentType reads \<and>
    codeCompletions cfg unmarshal now logID False (Some body) send = Inr c'' \<longrightarrow>
      (\<exists>c0. Stream (stream_step cfg unmarshal now (''chatcmpl-'' @ logID))
               (map Data (List.map_filter frame_payload (scanner_run 0 [] reads)))
               (stream_start 200 contentType new_context) = Inr c0 \<and>
            written c'' = written c0 @
              [writeData (''data: '' @ Marshal_Response
                 \<lparr>Id' = ''chatcmpl-'' @ logID, Object = ''chat.completion.chunk'',
                  Created = now, Model = CodeInstructModel cfg,
                  Choices = [\<lparr>Index = 0, Delta = \<lparr>Role = [], Content = JNull, Name = None\<rparr>,
                              FinishReason = Some ''stop''\<rparr>]\<rparr>),
               ''data: [DONE]'' @ [LF, LF]])) \<and>
   (send (ConstructRequestBody body cfg) = Responded 200 contentType reads \<and>
    (HasPrefix (CodeInstructModel cfg) ''@'' \<longrightarrow>
       (\<forall>p r. unmarshal p = Inr r \<longrightarrow> Choices r \<noteq> []))
    \<longrightarrow> (\<exists>c'. codeCompletions cfg unmarshal now logID False (Some body) send = Inr c'))"
proof (intro conjI impI)
  show "\<exists>c'. stream_step cfg unmarshal now rid Stop c = Inr (False, c') \<and>
      written c' = written c @
        [writeData (''data: '' @ Marshal_Response
           \<lparr>Id' = rid, Object = ''chat.completion.chunk'', Created = now,
            Model = CodeInstructModel cfg,
            Choices = [\<lparr>Index = 0, Delta = \<lparr>Role = [], Content = JNull, Name = None\<rparr>,
                        FinishReason = Some ''stop''\<rparr>]\<rparr>),
         ''data: [DONE]'' @ [LF, LF]]"
    by (simp add: stop_step written_Render finish_chunk_def writeData_def dataReplacer_def)
next
  assume "\<exists>err. unmarshal ''[DONE]'' = Inl err"
  then show "stream_step cfg unmarshal now rid (Data ''[DONE]'') c = Inr (True, c)"
    by (auto simp: stream_step_def TrimSuffix_CR)
next
  assume "\<exists>err. unmarshal ''[DONE]'' = Inl err"
  then show "stream_step cfg unmarshal now rid (Data (''[DONE]'' @ [CR])) c = Inr (True, c)"
    by (auto simp: stream_step_def TrimSuffix_CR)
next
  let ?step = "stream_step cfg unmarshal now (''chatcmpl-'' @ logID)"
  let ?ps = "List.map_filter frame_payload (scanner_run 0 [] reads)"
  let ?start = "stream_start 200 contentType new_context"
  assume a: "send (ConstructRequestBody body cfg) = Responded 200 contentType reads \<and>
    codeCompletions cfg unmarshal now logID False (Some body) send = Inr c''"
  then have sent: "send (ConstructRequestBody body cfg) = Responded 200 contentType reads"
    and result: "codeCompletions cfg unmarshal now logID False (Some body) send = Inr c''"
    by simp_all
  have run: "Stream ?step (map Data ?ps @ [Stop]) ?start = Inr c''"
    using result by (simp add: codeCompletions_def sent Let_def reader_events_def GetResponseID_def)
  then obtain c0 where c0: "Stream ?step (map Data ?ps) ?start = Inr c0"
    and last: "Stream ?step [Stop] c0 = Inr c''"
    by (auto simp: Stream_data_then split: sum.splits)
  from last have "c'' = Render ''data: [DONE]''
      (Render (''data: '' @ Marshal_Response (finish_chunk cfg now (''chatcmpl-'' @ logID))) c0)"
    by (simp add: stop_step)
  then have "written c'' = written c0 @
              [writeData (''data: '' @ Marshal_Response
                 \<lparr>Id' = ''chatcmpl-'' @ logID, Object = ''chat.completion.chunk'',
                  Created = now, Model = CodeInstructModel cfg,
                  Choices = [\<lparr>Index = 0, Delta = \<lparr>Role = [], Content = JNull, Name = None\<rparr>,
                              FinishReason = Some ''stop''\<rparr>]\<rparr>),
               ''data: [DONE]'' @ [LF, LF]]"
    by (simp add: written_Render finish_chunk_def writeData_def dataReplacer_def)
  with c0 show "\<exists>c0. Stream ?step (map Data ?ps) ?start = Inr c0 \<and>
            written c'' = written c0 @
              [writeData (''data: '' @ Marshal_Response
                 \<lparr>Id' = ''chatcmpl-'' @ logID, Object = ''chat.completion.chunk'',
                  Created = now, Model = CodeInstructModel cfg,
                  Choices = [\<lparr>Index = 0, Delta = \<lparr>Role = [], Content = JNull, Name = None\<rparr>,
                              FinishReason = Some ''stop''\<rparr>]\<rparr>),
               ''data: [DONE]'' @ [LF, LF]]"
    by blast
next
  let ?step = "stream_step cfg unmarshal now (''chatcmpl-'' @ logID)"
  let ?ps = "List.map_filter frame_payload (scanner_run 0 [] reads)"
  let ?start = "stream_start 200 contentType new_context"
  assume a: "send (ConstructRequestBody body cfg) = Responded 200 contentType reads \<and>
    (HasPrefix (CodeInstructModel cfg) ''@'' \<longrightarrow>
       (\<forall>p r. unmarshal p = Inr r \<longrightarrow> Choices r \<noteq> []))"
  then obtain c0 where "Stream ?step (map Data ?ps) ?start = Inr c0"
    using Stream_data_no_panic [of cfg unmarshal] by blast
  then have "\<exists>c'. Stream ?step (map Data ?ps @ [Stop]) ?start = Inr c'"
    by (simp add: Stream_data_then stop_step)
  then show "\<exists>c'. codeCompletions cfg unmarshal now logID False (Some body) send = Inr c'"
    using a by (simp add: codeCompletions_def Let_def reader_events_def GetResponseID_def)
qed

text \<open>
  Claim C7. On a backend whose model name starts with \<open>@\<close>, a payload that decodes to a
  chunk whose first choice has the end-of-sentence token as its delta content is written
  as the event \<open>data: \<close> followed by the JSON form of the same chunk with that content
  replaced by the empty string: id, object, created, model, the index, role, name and
  finish reason of the first choice, and all other choices are those of the decoded chunk.
\<close>

theorem end_of_sentence_blanked:
  assumes "HasPrefix (CodeInstructModel cfg) ''@''"
    and "unmarshal (TrimSuffix d [CR]) = Inr r"
    and "Choices r = c0 # cs"
    and "Content (Delta c0) = JStr end_of_sentence"
  shows "stream_step cfg unmarshal now rid (Data d) c =
     Inr (True, Render (''data: '' @ Marshal_Response
       \<lparr>Id' = Id' r, Object = Object r, Created = Created r, Model = Model r,
        Choices = \<lparr>Index = Index c0,
                    Delta = \<lparr>Role = Role (Delta c0), Content = JStr [], Name = Name (Delta c0)\<rparr>,
                    FinishReason = FinishReason c0\<rparr> # cs\<rparr>) c)"
proof -
  have "blank_end_of_sentence r =
     Inr \<lparr>Id' = Id' r, Object = Object r, Created = Created r, Model = Model r,
        Choices = \<lparr>Index = Index c0,
                    Delta = \<lparr>Role = Role (Delta c0), Content = JStr [], Name = Name (Delta c0)\<rparr>,
                    FinishReason = FinishReason c0\<rparr> # cs\<rparr>"
    using assms(3,4) by (simp add: blank_end_of_sentence_def)
  then show ?thesis
    using assms(1,2) by (simp add: stream_step_def Let_def json_Marshal_def)
qed

section \<open>The code-completion handler on the example inputs\<close>

lemma digit_chars:
  "digit_char 0 = CHR ''0''" "digit_char (Suc 0) = CHR ''1''" "digit_char 2 = CHR ''2''"
  "digit_char 3 = CHR ''3''" "digit_char 4 = CHR ''4''" "digit_char 5 = CHR ''5''"
  "digit_char 6 = CHR ''6''" "digit_char 7 = CHR ''7''" "digit_char 8 = CHR ''8''"
  "digit_char 9 = CHR ''9''"
  by (simp_all add: digit_char_def char_of_eq_iff take_bit_eq_mod)

lemma hex_chars:
  "hex_char 3 = CHR ''3''" "hex_char 12 = CHR ''c''" "hex_char 14 = CHR ''e''"
  by (simp_all add: hex_char_def eval_nat_numeral)

lemma reader_events_lines:
  assumes "[] \<notin> set reads"
    and "\<forall>l\<in>set (spec_lines (concat reads)). length l < MaxScanTokenSize"
  shows "reader_events reads =
     map Data (List.map_filter frame_payload (spec_lines (concat reads))) @ [Stop]"
  using scanner_run_short [of reads "[]" 0] assms by (simp add: reader_events_def)

lemmas text_defs =
  json_Marshal_def Marshal_Response_def Marshal_Choice_def Marshal_Message_def member_def
  quote_def escape_byte_def hex_chars Itoa_def FormatUint.simps digit_chars writeData_def
  dataReplacer_def

lemmas handler_defs =
  codeCompletions_def reader_events_lines List.map_filter_simps frame_payload_def
  TrimPrefix_def TrimSuffix_def HasSuffix_def stream_step_def finish_chunk_def
  GetResponseID_def written_Render stream_start_def SetEventStreamHeaders_def c_Header_def
  c_Status_def new_context_def MaxScanTokenSize_def Let_def

lemmas example_code_defs =
  example_config_def example_code_body_def example_upstream_def example_unmarshal_def
  example_chunk_def



lemma example_stream_written:
  \<open>(case codeCompletions example_config example_unmarshal 1700000000 ''req-1'' False
          (Some example_code_body)
          (example_upstream 200 [''data: {h'', ''i}'' @ [CR, LF] @ ''data: [DONE]'' @ [LF]]) of
      Inl e \<Rightarrow> []
    | Inr c \<Rightarrow> written c) =
   [''data:{hi}'' @ [LF, LF],
    ''data: {"id":"chatcmpl-req-1","object":"chat.completion.chunk","created":1700000000,"model":"stable-code-3b","choices":[{"index":0,"delta":{},"finish_reason":"stop"}]}'' @ [LF, LF],
    ''data: [DONE]'' @ [LF, LF]]\<close>
  by (simp add: handler_defs text_defs example_code_defs)

text \<open>
  The end-to-end scenario of the specification: the upstream sends one chunk, split over
  two reads, and then \<open>[DONE]\<close>; the client receives the chunk, the finish chunk and the
  terminator, and nothing else.
\<close>

lemma example_stream_complete:
  \<open>(\<exists>c. codeCompletions example_config example_unmarshal 1700000000 ''req-1'' False
          (Some example_code_body)
          (example_upstream 200 [''data: {h'', ''i}'' @ [CR, LF] @ ''data: [DONE]'' @ [LF]]) = Inr c \<and>
       written c =
        [''data:{hi}'' @ [LF, LF],
         ''data: {"id":"chatcmpl-req-1","object":"chat.completion.chunk","created":1700000000,"model":"stable-code-3b","choices":[{"index":0,"delta":{},"finish_reason":"stop"}]}'' @ [LF, LF],
         ''data: [DONE]'' @ [LF, LF]]) \<and>
   example_unmarshal ''[DONE]'' = Inl ''invalid character'' \<and>
   stream_step example_config example_unmarshal 1700000000 ''chatcmpl-req-1'' (Data ''[DONE]'')
     new_context = Inr (True, new_context)\<close>
proof -
  let ?reads = "[''data: {h'', ''i}'' @ [CR, LF] @ ''data: [DONE]'' @ [LF]]"
  note claim = stream_finish_and_terminator
      [where cfg = example_config and unmarshal = example_unmarshal and now = 1700000000
         and logID = "''req-1''" and send = "example_upstream 200 ?reads"
         and body = example_code_body and contentType = "''application/json''"
         and reads = ?reads and rid = "''chatcmpl-req-1''" and c = new_context]
  have backend: "\<not> HasPrefix (CodeInstructModel example_config) ''@''"
    by (simp add: example_config_def)
  have rejected: "example_unmarshal ''[DONE]'' = Inl ''invalid character''"
    by (simp add: example_unmarshal_def)
  have "\<exists>c. codeCompletions example_config example_unmarshal 1700000000 ''req-1'' False
          (Some example_code_body) (example_upstream 200 ?reads) = Inr c"
    using claim backend by (simp add: example_upstream_def)
  moreover have "stream_step example_config example_unmarshal 1700000000 ''chatcmpl-req-1''
      (Data ''[DONE]'') new_context = Inr (True, new_context)"
    using claim rejected by blast
  ultimately show ?thesis
    using example_stream_written rejected by auto
qed

text \<open>
  Claim C1 does not hold of the code for every stream. The claim has every
  code-completion stream end with one finish chunk and one \<open>data: [DONE]\<close>. On a backend
  whose model name starts with \<open>@\<close>, line 477 reads \<open>Choices[0]\<close> of every decoded chunk
  without looking at the length of \<open>Choices\<close>. The payload \<open>{}\<close>, which \<open>json.Unmarshal\<close>
  decodes to a chunk without choices, makes that a panic: the handler ends there, and the
  end-of-stream step, which would have written the two events, is never reached.
\<close>

theorem stream_panics_without_choices:
  "example_unmarshal ''{}'' =
     Inr \<lparr>Id' = [], Object = [], Created = 0, Model = [], Choices = []\<rparr> \<and>
   codeCompletions (example_config\<lparr>CodeInstructModel := ''@cf/deepseek''\<rparr>) example_unmarshal
     1700000000 ''req-1'' False (Some example_code_body)
     (example_upstream 200 [''data: {}'' @ [LF], ''data: [DONE]'' @ [LF]])
   = Inl (IndexOutOfRange 0 0)"
  by (simp add: handler_defs example_code_defs blank_end_of_sentence_def)

text \<open>
  Claim C7 on a chunk whose content is the end-of-sentence token.
\<close>

theorem end_of_sentence_blanked_witness:
  \<open>\<exists>c'. stream_step (example_config\<lparr>CodeInstructModel := ''@cf/deepseek''\<rparr>) example_unmarshal
          1700000000 ''chatcmpl-req-1'' (Data (''{eos}'' @ [CR])) new_context = Inr (True, c') \<and>
        written c' =
          [''data: {"id":"x","object":"chat.completion.chunk","created":1700000000,"model":"@cf/deepseek","choices":[{"index":0,"delta":{"content":""}}]}''
             @ [LF, LF]]\<close>
proof -
  let ?cfg = "example_config\<lparr>CodeInstructModel := ''@cf/deepseek''\<rparr>"
  let ?c0 = "\<lparr>Index = 0, Delta = \<lparr>Role = [], Content = JStr end_of_sentence, Name = None\<rparr>,
              FinishReason = None\<rparr>"
  have "stream_step ?cfg example_unmarshal 1700000000 ''chatcmpl-req-1''
          (Data (''{eos}'' @ [CR])) new_context =
        Inr (True, Render (''data: '' @ Marshal_Response
          \<lparr>Id' = ''x'', Object = ''chat.completion.chunk'', Created = 1700000000,
           Model = ''@cf/deepseek'',
           Choices = [\<lparr>Index = 0, Delta = \<lparr>Role = [], Content = JStr [], Name = None\<rparr>,
                       FinishReason = None\<rparr>]\<rparr>) new_context)"
    using end_of_sentence_blanked
      [where cfg = ?cfg and unmarshal = example_unmarshal and d = "''{eos}'' @ [CR]"
         and r = "example_chunk end_of_sentence" and ?c0.0 = ?c0 and cs = "[]"
         and now = 1700000000 and rid = "''chatcmpl-req-1''" and c = new_context]
    by (simp add: example_code_defs TrimSuffix_def HasSuffix_def)
  then show ?thesis
    by (simp add: written_Render new_context_def text_defs)
qed

text \<open>
  Claim C6 fails on the code for a prompt that contains the six characters backslash,
  \<open>u003c\<close> themselves, as source code that handles JSON does. The encoder escapes the
  backslash, and the replacement of line 569, which runs over the whole text, then takes
  the second backslash and \<open>u003c\<close> for an escaped angle bracket. The content that is sent
  is no longer the prompt between the tokens: it holds a backslash followed by \<open><\<close>,
  which is not a JSON escape.
\<close>

theorem stable_code_prompt_corrupted:
  \<open>ConstructRequestBody (JObj [(''prompt'', JStr ([BSL] @ ''u003c'')), (''suffix'', JStr [])])
     example_config =
   ''{"prompt":"'' @ [BSL] @ ''<","suffix":"","model":"stable-code-3b","messages":[{"content":"<fim_prefix>''
     @ [BSL] @ ''<<fim_suffix><fim_middle>","role":"user"}]}''\<close>
  by (simp add: ConstructRequestBody_def constructWithStableCodeModel_def
        constructWithChatModel_def user_message_def StableCodeModelPrefix_def example_config_def
        sjson_Delete_def sjson_Set_def gjson_Get_def Result_String_def member_def quote_def
        escape_byte_def hex_chars Let_def)

text \<open>
  The example of the specification, the prompt \<open>abc\<close> with the suffix \<open>def\<close>, is sent as
  the claim says.
\<close>

lemma stable_code_example:
  \<open>ConstructRequestBody example_code_body example_config =
   ''{"prompt":"abc","suffix":"def","model":"stable-code-3b","messages":[{"content":"<fim_prefix>abc<fim_suffix>def<fim_middle>","role":"user"}]}''\<close>
  by (simp add: ConstructRequestBody_def constructWithStableCodeModel_def
        constructWithChatModel_def user_message_def StableCodeModelPrefix_def example_code_defs
        sjson_Delete_def sjson_Set_def gjson_Get_def Result_String_def member_def quote_def
        escape_byte_def hex_chars Let_def)

section \<open>The replacements of \<open>constructWithChatModel\<close>\<close>

lemma HasPrefix_ReplaceAll:
  "c \<notin> set p \<Longrightarrow> HasPrefix (ReplaceAll s old [c]) p \<Longrightarrow> HasPrefix s p"
proof (induction p arbitrary: s)
  case Nil
  then show ?case by simp
next
  case (Cons q qs)
  show ?case
  proof (cases s)
    case Nil
    then show ?thesis using Cons.prems by simp
  next
    case s: (Cons x xs)
    show ?thesis
    proof (cases "old \<noteq> [] \<and> HasPrefix (x # xs) old")
      case True
      then show ?thesis using Cons.prems s by auto
    next
      case False
      then have "HasPrefix (ReplaceAll xs old [c]) qs" and "x = q"
        using Cons.prems s by auto
      then show ?thesis using Cons.IH [of xs] Cons.prems(1) s by simp
    qed
  qed
qed

lemma Contains_Nil: "Contains s []"
  by (cases s) simp_all

lemma Contains_drop: "Contains (drop n s) p \<Longrightarrow> Contains s p"
proof (induction s arbitrary: n)
  case Nil
  then show ?case by simp
next
  case (Cons x xs)
  then show ?case by (cases n) auto
qed

lemma ReplaceAll_no_new_occurrence:
  "c \<notin> set p \<Longrightarrow> Contains (ReplaceAll s old [c]) p \<Longrightarrow> Contains s p"
proof (induction s old "[c]" rule: ReplaceAll.induct)
  case (1 old)
  then show ?case by simp
next
  case (2 x xs old)
  show ?case
  proof (cases "p = []")
    case True
    then show ?thesis by (simp add: Contains_Nil)
  next
    case p: False
    show ?thesis
    proof (cases "old \<noteq> [] \<and> HasPrefix (x # xs) old")
      case True
      then have r: "ReplaceAll (x # xs) old [c] = c # ReplaceAll (drop (length old) (x # xs)) old [c]"
        by simp
      have "\<not> HasPrefix (c # ReplaceAll (drop (length old) (x # xs)) old [c]) p"
        using "2.prems"(1) p by (cases p) auto
      then have "Contains (ReplaceAll (drop (length old) (x # xs)) old [c]) p"
        using "2.prems"(2) r by simp
      then have "Contains (drop (length old) (x # xs)) p"
        using "2.hyps"(1) True "2.prems"(1) by blast
      then show ?thesis by (rule Contains_drop)
    next
      case False
      then have r: "ReplaceAll (x # xs) old [c] = x # ReplaceAll xs old [c]"
        by auto
      show ?thesis
      proof (cases "HasPrefix (ReplaceAll (x # xs) old [c]) p")
        case True
        then have "HasPrefix (x # xs) p"
          using "2.prems"(1) by (rule HasPrefix_ReplaceAll [rotated])
        then show ?thesis by simp
      next
        case np: False
        then have "Contains (ReplaceAll xs old [c]) p"
          using "2.prems"(2) r by simp
        then have "Contains xs p"
          using "2.hyps"(2) False "2.prems"(1) by blast
        then show ?thesis by simp
      qed
    qed
  qed
qed

lemma ReplaceAll_removes:
  "old \<noteq> [] \<Longrightarrow> c \<notin> set old \<Longrightarrow> \<not> Contains (ReplaceAll s old [c]) old"
proof (induction s old "[c]" rule: ReplaceAll.induct)
  case (1 old)
  then show ?case by simp
next
  case (2 x xs old)
  show ?case
  proof (cases "HasPrefix (x # xs) old")
    case True
    then have r: "ReplaceAll (x # xs) old [c] = c # ReplaceAll (drop (length old) (x # xs)) old [c]"
      using "2.prems"(1) by simp
    have "\<not> HasPrefix (c # ReplaceAll (drop (length old) (x # xs)) old [c]) old"
      using "2.prems" by (cases old) auto
    moreover have "\<not> Contains (ReplaceAll (drop (length old) (x # xs)) old [c]) old"
      using "2.hyps"(1) True "2.prems" by blast
    ultimately show ?thesis
      using r by simp
  next
    case False
    then have r: "ReplaceAll (x # xs) old [c] = x # ReplaceAll xs old [c]"
      by simp
    have "\<not> HasPrefix (ReplaceAll (x # xs) old [c]) old"
      using HasPrefix_ReplaceAll [of c old "x # xs" old] "2.prems"(2) False by blast
    moreover have "\<not> Contains (ReplaceAll xs old [c]) old"
      using "2.hyps"(2) False "2.prems" by blast
    ultimately show ?thesis
      using r by simp
  qed
qed

text \<open>
  The second half of claim C6 holds for every body: after the two replacements the text
  has no escaped angle bracket left, since a replacement puts in a character that is not
  part of either escape.
\<close>

lemma no_escaped_angle_brackets:
  "\<not> Contains (constructWithChatModel body messages) (BSL # ''u003c'') \<and>
   \<not> Contains (constructWithChatModel body messages) (BSL # ''u003e'')"
proof
  let ?t = "json_text (sjson_Set body [''messages''] messages)"
  have "\<not> Contains (ReplaceAll ?t (BSL # ''u003c'') ''<'') (BSL # ''u003c'')"
    by (rule ReplaceAll_removes) simp_all
  then have "\<not> Contains (ReplaceAll (ReplaceAll ?t (BSL # ''u003c'') ''<'') (BSL # ''u003e'') ''>'')
               (BSL # ''u003c'')"
    using ReplaceAll_no_new_occurrence [of "CHR ''>''" "BSL # ''u003c''"] by fastforce
  then show "\<not> Contains (constructWithChatModel body messages) (BSL # ''u003c'')"
    by (simp add: constructWithChatModel_def Let_def)
  have "\<not> Contains (ReplaceAll (ReplaceAll ?t (BSL # ''u003c'') ''<'') (BSL # ''u003e'') ''>'')
               (BSL # ''u003e'')"
    by (rule ReplaceAll_removes) simp_all
  then show "\<not> Contains (constructWithChatModel body messages) (BSL # ''u003e'')"
    by (simp add: constructWithChatModel_def Let_def)
qed

end
